theory Spec2Isabelle
  imports Main "HOL-Library.AList"
begin

section \<open>JavaScript \<open>Map\<close> as an insertion-ordered association list\<close>

text \<open>
  A JavaScript \<open>Map\<close> iterates in insertion order, \<open>set\<close> on a key that is present
  overwrites the value in place, \<open>set\<close> on a new key appends, \<open>delete\<close> removes the
  entry. An association list with distinct keys carries exactly that.
\<close>

definition map_has :: "('k \<times> 'v) list \<Rightarrow> 'k \<Rightarrow> bool" where
  "map_has m k = (map_of m k \<noteq> None)"

definition map_get :: "('k \<times> 'v) list \<Rightarrow> 'k \<Rightarrow> 'v option" where
  "map_get m k = map_of m k"

definition map_set :: "'k \<Rightarrow> 'v \<Rightarrow> ('k \<times> 'v) list \<Rightarrow> ('k \<times> 'v) list" where
  "map_set k v m = AList.update k v m"

definition map_delete :: "'k \<Rightarrow> ('k \<times> 'v) list \<Rightarrow> ('k \<times> 'v) list" where
  "map_delete k m = AList.delete k m"

definition map_size :: "('k \<times> 'v) list \<Rightarrow> nat" where
  "map_size m = length m"

definition map_values :: "('k \<times> 'v) list \<Rightarrow> 'v list" where
  "map_values m = map snd m"

section \<open>The hub: \<open>backend/src/server.js\<close>\<close>

type_synonym socketId = string
type_synonym roomId = string

text \<open>The value stored per socket in a room: \<open>{ userId, userName }\<close>.\<close>

record user =
  userId :: string
  userName :: string

text \<open>Events a socket sends to the hub, one constructor per \<open>socket.on\<close> handler, and
  \<open>Connection\<close> for \<open>io.on("connection")\<close>.\<close>

datatype client_msg =
    Connection
  | JoinRoom roomId string string
  | CodeChange roomId string string string
  | CursorChange roomId "int \<times> int" string string
  | LanguageChange roomId string string
  | RunCode roomId string string string
  | Disconnect
  | LeaveRoom roomId

text \<open>Events the hub sends to sockets, with the payload fields in the order of the source.\<close>

datatype server_event =
    UserJoined string string socketId
  | RoomUsers "user list"
  | CodeUpdate string string string nat
  | CursorUpdate "int \<times> int" string string socketId
  | LanguageUpdate string string
  | RunCodeRequest string string string nat
  | UserLeft string string socketId

text \<open>
  One call of \<open>emit\<close>. \<open>Broadcast r R ev\<close> is \<open>socket.to(r).emit(ev)\<close>, with \<open>R\<close> the
  sockets Socket.IO delivers it to; \<open>Unicast c ev\<close> is \<open>socket.emit(ev)\<close> on socket \<open>c\<close>.
\<close>

datatype emission =
    Broadcast roomId "socketId set" server_event
  | Unicast socketId server_event

fun recipients :: "emission \<Rightarrow> socketId set" where
  "recipients (Broadcast r R ev) = R"
| "recipients (Unicast c ev) = {c}"

fun payload :: "emission \<Rightarrow> server_event" where
  "payload (Broadcast r R ev) = ev"
| "payload (Unicast c ev) = ev"

text \<open>
  The state of the hub: the module-level \<open>rooms\<close> map (room id to a map from socket id
  to user), and the room membership that Socket.IO itself keeps in its adapter, which
  \<open>socket.join\<close>, \<open>socket.leave\<close> and \<open>socket.to(room).emit\<close> read and write.
\<close>

record hub =
  rooms :: "(roomId \<times> (socketId \<times> user) list) list"
  adapter :: "roomId \<Rightarrow> socketId set"

definition hub_init :: hub where
  "hub_init = \<lparr> rooms = [], adapter = (\<lambda>r. {}) \<rparr>"

subsection \<open>Socket.IO primitives used by the handlers\<close>

text \<open>\<open>socket.join(room)\<close>.\<close>

definition socket_join :: "socketId \<Rightarrow> roomId \<Rightarrow> hub \<Rightarrow> hub" where
  "socket_join sock r h = h\<lparr> adapter := (adapter h)(r := insert sock (adapter h r)) \<rparr>"

text \<open>\<open>socket.leave(room)\<close>.\<close>

definition socket_leave :: "socketId \<Rightarrow> roomId \<Rightarrow> hub \<Rightarrow> hub" where
  "socket_leave sock r h = h\<lparr> adapter := (adapter h)(r := adapter h r - {sock}) \<rparr>"

text \<open>On disconnection Socket.IO removes the socket from every room before the
  \<open>disconnect\<close> handler runs.\<close>

definition socket_leave_all :: "socketId \<Rightarrow> hub \<Rightarrow> hub" where
  "socket_leave_all sock h = h\<lparr> adapter := (\<lambda>r. adapter h r - {sock}) \<rparr>"

text \<open>\<open>socket.to(room).emit(ev)\<close>: every socket of the room except the sender.\<close>

definition to_emit :: "hub \<Rightarrow> socketId \<Rightarrow> roomId \<Rightarrow> server_event \<Rightarrow> emission" where
  "to_emit h sock r ev = Broadcast r (adapter h r - {sock}) ev"

text \<open>\<open>socket.emit(ev)\<close>: the socket itself only.\<close>

definition self_emit :: "socketId \<Rightarrow> server_event \<Rightarrow> emission" where
  "self_emit sock ev = Unicast sock ev"

subsection \<open>The handlers\<close>

text \<open>\<open>io.on("connection")\<close>: Socket.IO puts every new socket into the room named by
  its own id; the handler itself only registers the listeners.\<close>

definition on_connection :: "socketId \<Rightarrow> hub \<Rightarrow> hub \<times> emission list" where
  "on_connection sock h = (socket_join sock sock h, [])"

text \<open>\<open>socket.on("join-room")\<close>. The lookup after \<open>rooms.set\<close> cannot miss.\<close>

definition on_join_room ::
  "socketId \<Rightarrow> roomId \<Rightarrow> string \<Rightarrow> string \<Rightarrow> hub \<Rightarrow> hub \<times> emission list" where
  "on_join_room sock r uid uname h =
    (let h1 = socket_join sock r h;
         rs1 = (if \<not> map_has (rooms h1) r then map_set r [] (rooms h1) else rooms h1);
         users = (case map_get rs1 r of Some us \<Rightarrow> us | None \<Rightarrow> []);
         rs2 = map_set r (map_set sock \<lparr> userId = uid, userName = uname \<rparr> users) rs1;
         h2 = h1\<lparr> rooms := rs2 \<rparr>;
         joined = to_emit h2 sock r (UserJoined uid uname sock);
         roomUsers = (case map_get rs2 r of Some us \<Rightarrow> map_values us | None \<Rightarrow> [])
     in (h2, [joined, self_emit sock (RoomUsers roomUsers)]))"

text \<open>The four relay handlers; \<open>now\<close> is the value of \<open>Date.now()\<close>.\<close>

definition on_code_change ::
  "nat \<Rightarrow> socketId \<Rightarrow> roomId \<Rightarrow> string \<Rightarrow> string \<Rightarrow> string \<Rightarrow> hub \<Rightarrow> hub \<times> emission list" where
  "on_code_change now sock r code language uid h =
    (h, [to_emit h sock r (CodeUpdate code language uid now)])"

definition on_cursor_change ::
  "socketId \<Rightarrow> roomId \<Rightarrow> int \<times> int \<Rightarrow> string \<Rightarrow> string \<Rightarrow> hub \<Rightarrow> hub \<times> emission list" where
  "on_cursor_change sock r position uid uname h =
    (h, [to_emit h sock r (CursorUpdate position uid uname sock)])"

definition on_language_change ::
  "socketId \<Rightarrow> roomId \<Rightarrow> string \<Rightarrow> string \<Rightarrow> hub \<Rightarrow> hub \<times> emission list" where
  "on_language_change sock r language uid h =
    (h, [to_emit h sock r (LanguageUpdate language uid)])"

definition on_run_code ::
  "nat \<Rightarrow> socketId \<Rightarrow> roomId \<Rightarrow> string \<Rightarrow> string \<Rightarrow> string \<Rightarrow> hub \<Rightarrow> hub \<times> emission list" where
  "on_run_code now sock r code language uid h =
    (h, [to_emit h sock r (RunCodeRequest code language uid now)])"

text \<open>
  The body shared by \<open>disconnect\<close> (once per entry of \<open>rooms\<close>) and \<open>leave-room\<close>:
  with \<open>users\<close> the map of room \<open>r\<close>, remove the socket, notify the room, and drop the
  room when it is empty. \<open>users.delete\<close> mutates the map that \<open>rooms\<close> holds, which the
  model writes back in place.
\<close>

definition remove_from_room ::
  "socketId \<Rightarrow> roomId \<Rightarrow> (socketId \<times> user) list \<Rightarrow> hub \<times> emission list \<Rightarrow> hub \<times> emission list" where
  "remove_from_room sock r users acc =
    (let (h, out) = acc in
     if map_has users sock then
       (case map_get users sock of
          None \<Rightarrow> (h, out)
        | Some u \<Rightarrow>
            (let users' = map_delete sock users;
                 rs1 = map_set r users' (rooms h);
                 left = to_emit h sock r (UserLeft (userId u) (userName u) sock);
                 rs2 = (if map_size users' = 0 then map_delete r rs1 else rs1)
             in (h\<lparr> rooms := rs2 \<rparr>, out @ [left])))
     else (h, out))"

text \<open>\<open>socket.on("disconnect")\<close>: the loop over \<open>rooms.entries()\<close>. The body deletes
  at most the entry it is visiting, so the loop visits the entries present at its start.\<close>

definition on_disconnect :: "socketId \<Rightarrow> hub \<Rightarrow> hub \<times> emission list" where
  "on_disconnect sock h =
    (let h1 = socket_leave_all sock h
     in fold (\<lambda>(r, users). remove_from_room sock r users) (rooms h1) (h1, []))"

text \<open>\<open>socket.on("leave-room")\<close>.\<close>

definition on_leave_room :: "socketId \<Rightarrow> roomId \<Rightarrow> hub \<Rightarrow> hub \<times> emission list" where
  "on_leave_room sock r h =
    (let h1 = socket_leave sock r h in
     if map_has (rooms h1) r then
       (case map_get (rooms h1) r of
          None \<Rightarrow> (h1, [])
        | Some users \<Rightarrow> remove_from_room sock r users (h1, []))
     else (h1, []))"

subsection \<open>Dispatch and runs\<close>

text \<open>An event as the hub sees it: the socket it arrives on, the clock when it is
  handled, and the message.\<close>

record event =
  origin :: socketId
  at :: nat
  msg :: client_msg

fun dispatch :: "client_msg \<Rightarrow> nat \<Rightarrow> socketId \<Rightarrow> hub \<Rightarrow> hub \<times> emission list" where
  "dispatch Connection now sock h = on_connection sock h"
| "dispatch (JoinRoom r uid uname) now sock h = on_join_room sock r uid uname h"
| "dispatch (CodeChange r code language uid) now sock h =
     on_code_change now sock r code language uid h"
| "dispatch (CursorChange r position uid uname) now sock h =
     on_cursor_change sock r position uid uname h"
| "dispatch (LanguageChange r language uid) now sock h =
     on_language_change sock r language uid h"
| "dispatch (RunCode r code language uid) now sock h =
     on_run_code now sock r code language uid h"
| "dispatch Disconnect now sock h = on_disconnect sock h"
| "dispatch (LeaveRoom r) now sock h = on_leave_room sock r h"

definition hub_step :: "hub \<Rightarrow> event \<Rightarrow> hub \<times> emission list" where
  "hub_step h e = dispatch (msg e) (at e) (origin e) h"

text \<open>Events are handled one at a time, each to completion, in arrival order.\<close>

fun hub_run :: "hub \<Rightarrow> event list \<Rightarrow> hub" where
  "hub_run h [] = h"
| "hub_run h (e # es) = hub_run (fst (hub_step h e)) es"

definition reachable :: "event list \<Rightarrow> hub" where
  "reachable es = hub_run hub_init es"

subsection \<open>Observations of the registry\<close>

text \<open>Modelled from the spec: \<open>listParticipants(roomId)\<close> is not a function of the
  source; it is the snapshot of the entries of \<open>rooms.get(roomId)\<close>, empty when the room
  does not exist.\<close>

definition listParticipants :: "hub \<Rightarrow> roomId \<Rightarrow> (socketId \<times> user) list" where
  "listParticipants h r = (case map_get (rooms h) r of None \<Rightarrow> [] | Some users \<Rightarrow> users)"

text \<open>The connections registered in a room: the keys of its map.\<close>

definition members :: "hub \<Rightarrow> roomId \<Rightarrow> socketId set" where
  "members h r = fst ` set (listParticipants h r)"

subsection \<open>Histories\<close>

text \<open>An event is a join of room \<open>r\<close> by connection \<open>c\<close>; an event is a departure of
  \<open>c\<close> from \<open>r\<close>: a \<open>leave-room\<close> for \<open>r\<close>, or a disconnect.\<close>

definition joins :: "socketId \<Rightarrow> roomId \<Rightarrow> event \<Rightarrow> bool" where
  "joins c r e = (origin e = c \<and> (case msg e of JoinRoom r' uid uname \<Rightarrow> r' = r | _ \<Rightarrow> False))"

definition departs :: "socketId \<Rightarrow> roomId \<Rightarrow> event \<Rightarrow> bool" where
  "departs c r e = (origin e = c \<and> (msg e = LeaveRoom r \<or> msg e = Disconnect))"

text \<open>In the history \<open>es\<close> (oldest first), \<open>c\<close> has joined \<open>r\<close> and has not since left it
  or disconnected: some event joins, and no later event departs.\<close>

fun joined_and_not_left :: "event list \<Rightarrow> roomId \<Rightarrow> socketId \<Rightarrow> bool" where
  "joined_and_not_left [] r c = False"
| "joined_and_not_left (e # es) r c =
     ((joins c r e \<and> list_all (\<lambda>e'. \<not> departs c r e') es) \<or> joined_and_not_left es r c)"

subsection \<open>Invariant of the registry, and the disconnect loop in closed form\<close>

text \<open>Keys are distinct, as in any \<open>Map\<close>, and no room is stored with an empty map.\<close>

definition registry_inv :: "hub \<Rightarrow> bool" where
  "registry_inv h = (distinct (map fst (rooms h)) \<and>
     (\<forall>(r, us) \<in> set (rooms h). us \<noteq> [] \<and> distinct (map fst us)))"

text \<open>What one pass of the disconnect loop leaves of an entry of \<open>rooms\<close>.\<close>

fun purge_entry ::
  "socketId \<Rightarrow> roomId \<times> (socketId \<times> user) list \<Rightarrow> (roomId \<times> (socketId \<times> user) list) list" where
  "purge_entry sock (r, us) =
     (if map_has us sock
      then (if map_delete sock us = [] then [] else [(r, map_delete sock us)])
      else [(r, us)])"

definition purge ::
  "socketId \<Rightarrow> (roomId \<times> (socketId \<times> user) list) list \<Rightarrow> (roomId \<times> (socketId \<times> user) list) list" where
  "purge sock rs = concat (map (purge_entry sock) rs)"

text \<open>The \<open>user-left\<close> emissions of the disconnect loop, one per room that holds the socket.\<close>

fun left_events ::
  "hub \<Rightarrow> socketId \<Rightarrow> (roomId \<times> (socketId \<times> user) list) list \<Rightarrow> emission list" where
  "left_events h sock [] = []"
| "left_events h sock ((r, us) # es) =
     (case map_get us sock of
        None \<Rightarrow> left_events h sock es
      | Some u \<Rightarrow> to_emit h sock r (UserLeft (userId u) (userName u) sock) # left_events h sock es)"

text \<open>Every registered participant of a room is in the Socket.IO room of that name.\<close>

definition adapter_inv :: "hub \<Rightarrow> bool" where
  "adapter_inv h = (\<forall>r. members h r \<subseteq> adapter h r)"

text \<open>A \<open>join-room\<close> is disciplined in a state when its connection is registered in no room
  other than the one it joins; a history is disciplined when each of its events is, in
  the state the hub has reached when the event arrives.\<close>

definition disciplined_join :: "hub \<Rightarrow> event \<Rightarrow> bool" where
  "disciplined_join h e =
     (case msg e of
        JoinRoom r uid uname \<Rightarrow> list_all (\<lambda>(r', us). map_has us (origin e) \<longrightarrow> r' = r) (rooms h)
      | _ \<Rightarrow> True)"

fun single_room_discipline :: "hub \<Rightarrow> event list \<Rightarrow> bool" where
  "single_room_discipline h [] = True"
| "single_room_discipline h (e # es) =
     (disciplined_join h e \<and> single_room_discipline (fst (hub_step h e)) es)"

section \<open>The client\<close>

subsection \<open>The Socket.IO client socket\<close>

text \<open>What the client code reads and writes of a Socket.IO client socket: the
  \<open>connected\<close> flag, and the calls of \<open>emit\<close> made on it, oldest first.\<close>

record client_socket =
  connected :: bool
  sent :: "client_msg list"

text \<open>A member access on \<open>null\<close> raises a \<open>TypeError\<close> in JavaScript.\<close>

datatype js_error = TypeError

text \<open>\<open>socket.emit(msg)\<close> on a variable that may hold \<open>null\<close>.\<close>

definition socket_emit :: "client_socket option \<Rightarrow> client_msg \<Rightarrow> js_error + client_socket" where
  "socket_emit so m =
     (case so of None \<Rightarrow> Inl TypeError | Some sk \<Rightarrow> Inr (sk\<lparr> sent := sent sk @ [m] \<rparr>))"

text \<open>\<open>socket?.connected\<close> as a condition: \<open>undefined\<close> is falsy.\<close>

definition socket_connected :: "client_socket option \<Rightarrow> bool" where
  "socket_connected so = (case so of None \<Rightarrow> False | Some sk \<Rightarrow> connected sk)"

subsection \<open>The singleton module: \<open>frontend/src/lib/socket.js\<close>\<close>

text \<open>The module state is the variable \<open>socket\<close>, \<open>null\<close> at load.\<close>

record socket_module =
  socket :: "client_socket option"

definition module_init :: socket_module where
  "module_init = \<lparr> socket = None \<rparr>"

text \<open>\<open>io(url, options)\<close> returns a new socket; the connection is established later, so
  the new socket is not yet connected and nothing has been emitted on it.\<close>

definition io :: "string \<Rightarrow> client_socket" where
  "io url = \<lparr> connected = False, sent = [] \<rparr>"

text \<open>\<open>getSocket(serverUrl)\<close>; \<open>env_url\<close> is \<open>import.meta.env.VITE_SOCKET_URL\<close>. An absent
  or empty string is falsy for \<open>||\<close>.\<close>

definition getSocket ::
  "string option \<Rightarrow> string option \<Rightarrow> socket_module \<Rightarrow> client_socket \<times> socket_module" where
  "getSocket serverUrl env_url st =
     (case socket st of
        None \<Rightarrow>
          (let url = (case serverUrl of
                        Some u \<Rightarrow> if u \<noteq> [] then u
                                  else (case env_url of
                                          Some v \<Rightarrow> if v \<noteq> [] then v else ''http://localhost:3000''
                                        | None \<Rightarrow> ''http://localhost:3000'')
                      | None \<Rightarrow> (case env_url of
                                   Some v \<Rightarrow> if v \<noteq> [] then v else ''http://localhost:3000''
                                 | None \<Rightarrow> ''http://localhost:3000''));
               sk = io url
           in (sk, st\<lparr> socket := Some sk \<rparr>))
      | Some sk \<Rightarrow> (sk, st))"

definition disconnectSocket :: "socket_module \<Rightarrow> socket_module" where
  "disconnectSocket st = (case socket st of None \<Rightarrow> st | Some sk \<Rightarrow> st\<lparr> socket := None \<rparr>)"

definition isSocketConnected :: "socket_module \<Rightarrow> bool" where
  "isSocketConnected st = (socket_connected (socket st) \<or> False)"

text \<open>\<open>joinRoom\<close> calls \<open>getSocket()\<close> with no argument and emits on the instance it gets,
  which is the one the module variable now holds.\<close>

definition joinRoom ::
  "string option \<Rightarrow> roomId \<Rightarrow> string \<Rightarrow> string \<Rightarrow> socket_module \<Rightarrow> js_error + socket_module" where
  "joinRoom env_url r uid uname st =
     (let (socketInstance, st1) = getSocket None env_url st in
      case socket_emit (Some socketInstance) (JoinRoom r uid uname) of
        Inl err \<Rightarrow> Inl err
      | Inr sk \<Rightarrow> Inr (st1\<lparr> socket := Some sk \<rparr>))"

definition leaveRoom :: "roomId \<Rightarrow> socket_module \<Rightarrow> js_error + socket_module" where
  "leaveRoom r st =
     (if socket st \<noteq> None then
        (case socket_emit (socket st) (LeaveRoom r) of
           Inl err \<Rightarrow> Inl err
         | Inr sk \<Rightarrow> Inr (st\<lparr> socket := Some sk \<rparr>))
      else Inr st)"

definition emitCodeChange ::
  "roomId \<Rightarrow> string \<Rightarrow> string \<Rightarrow> string \<Rightarrow> socket_module \<Rightarrow> js_error + socket_module" where
  "emitCodeChange r code language uid st =
     (if socket_connected (socket st) then
        (case socket_emit (socket st) (CodeChange r code language uid) of
           Inl err \<Rightarrow> Inl err
         | Inr sk \<Rightarrow> Inr (st\<lparr> socket := Some sk \<rparr>))
      else Inr st)"

definition emitCursorChange ::
  "roomId \<Rightarrow> int \<times> int \<Rightarrow> string \<Rightarrow> string \<Rightarrow> socket_module \<Rightarrow> js_error + socket_module" where
  "emitCursorChange r position uid uname st =
     (if socket_connected (socket st) then
        (case socket_emit (socket st) (CursorChange r position uid uname) of
           Inl err \<Rightarrow> Inl err
         | Inr sk \<Rightarrow> Inr (st\<lparr> socket := Some sk \<rparr>))
      else Inr st)"

definition emitLanguageChange ::
  "roomId \<Rightarrow> string \<Rightarrow> string \<Rightarrow> socket_module \<Rightarrow> js_error + socket_module" where
  "emitLanguageChange r language uid st =
     (if socket_connected (socket st) then
        (case socket_emit (socket st) (LanguageChange r language uid) of
           Inl err \<Rightarrow> Inl err
         | Inr sk \<Rightarrow> Inr (st\<lparr> socket := Some sk \<rparr>))
      else Inr st)"

subsection \<open>The editor panel: \<open>CodeEditorPanel\<close>\<close>

text \<open>The Monaco editor behind \<open>editorRef\<close>: its text and its cursor position.\<close>

record editor =
  content :: string
  cursor :: "(int \<times> int) option"

text \<open>
  The state of one mounted panel: the props the handlers read, the three refs, and the
  environment they act on. \<open>timers\<close> holds the pending timeouts of the page (handle, due
  time, and the \<open>code-change\<close> the callback emits), \<open>clock\<close> is the time in milliseconds,
  and \<open>code_calls\<close> records the calls of the \<open>onCodeChange\<close> prop, oldest first.
\<close>

record panel =
  p_socket :: "client_socket option"
  p_roomId :: "string option"
  p_userId :: "string option"
  p_selectedLanguage :: string
  editorRef :: "editor option"
  isRemoteChangeRef :: bool
  debounceTimerRef :: "nat option"
  timers :: "(nat \<times> nat \<times> client_msg) list"
  next_timer :: nat
  clock :: nat
  code_calls :: "string list"

text \<open>A string prop in a condition: \<open>undefined\<close> and the empty string are falsy.\<close>

definition truthy :: "string option \<Rightarrow> bool" where
  "truthy x = (case x of None \<Rightarrow> False | Some s \<Rightarrow> s \<noteq> [])"

text \<open>A freshly mounted panel with the given props: \<open>editorRef\<close> and
  \<open>debounceTimerRef\<close> are \<open>null\<close>, \<open>isRemoteChangeRef\<close> is \<open>false\<close>, no timeout is pending.\<close>

definition panel_mount ::
  "client_socket option \<Rightarrow> string option \<Rightarrow> string option \<Rightarrow> string \<Rightarrow> panel" where
  "panel_mount so r uid lang =
     \<lparr> p_socket = so, p_roomId = r, p_userId = uid, p_selectedLanguage = lang,
       editorRef = None, isRemoteChangeRef = False, debounceTimerRef = None,
       timers = [], next_timer = 1, clock = 0, code_calls = [] \<rparr>"

text \<open>\<open>clearTimeout(handle)\<close>: a handle that is null or no longer pending is ignored.\<close>

definition clearTimeout :: "nat option \<Rightarrow> panel \<Rightarrow> panel" where
  "clearTimeout handle s = s\<lparr> timers := filter (\<lambda>(i, due, m). Some i \<noteq> handle) (timers s) \<rparr>"

text \<open>\<open>setTimeout(callback, delay)\<close> returns a fresh handle.\<close>

definition setTimeout :: "client_msg \<Rightarrow> nat \<Rightarrow> panel \<Rightarrow> nat \<times> panel" where
  "setTimeout m delay s =
     (next_timer s,
      s\<lparr> timers := timers s @ [(next_timer s, clock s + delay, m)],
         next_timer := next_timer s + 1 \<rparr>)"

text \<open>The callback of the debounce timer: \<open>socket.emit("code-change", ...)\<close> on the socket
  the closure holds, which is the prop.\<close>

definition timer_callback :: "client_msg \<Rightarrow> panel \<Rightarrow> panel" where
  "timer_callback m s =
     (case socket_emit (p_socket s) m of
        Inl err \<Rightarrow> s
      | Inr sk \<Rightarrow> s\<lparr> p_socket := Some sk \<rparr>)"

text \<open>\<open>handleEditorDidMount\<close>.\<close>

definition handleEditorDidMount :: "editor \<Rightarrow> panel \<Rightarrow> panel" where
  "handleEditorDidMount ed s = s\<lparr> editorRef := Some ed \<rparr>"

text \<open>\<open>handleCodeChange(value)\<close>, the \<open>onChange\<close> callback of the editor.\<close>

definition handleCodeChange :: "string \<Rightarrow> panel \<Rightarrow> panel" where
  "handleCodeChange v s =
     (if isRemoteChangeRef s then s\<lparr> isRemoteChangeRef := False \<rparr>
      else
        (let s1 = s\<lparr> code_calls := code_calls s @ [v] \<rparr> in
         if socket_connected (p_socket s1) \<and> truthy (p_roomId s1) \<and> truthy (p_userId s1) then
           (case (p_roomId s1, p_userId s1) of
              (Some r, Some uid) \<Rightarrow>
                (let s2 = clearTimeout (debounceTimerRef s1) s1;
                     (handle, s3) = setTimeout (CodeChange r v (p_selectedLanguage s1) uid) 300 s2
                 in s3\<lparr> debounceTimerRef := Some handle \<rparr>)
            | _ \<Rightarrow> s1)
         else s1))"

text \<open>\<open>editor.setValue(v)\<close>: Monaco replaces the text, moves the cursor to the start, and
  reports the change through \<open>onChange\<close>, that is \<open>handleCodeChange\<close>, before it returns.\<close>

definition editor_setValue :: "string \<Rightarrow> editor \<Rightarrow> panel \<Rightarrow> panel" where
  "editor_setValue v ed s =
     handleCodeChange v (s\<lparr> editorRef := Some (ed\<lparr> content := v, cursor := Some (1, 1) \<rparr>) \<rparr>)"

text \<open>\<open>editor.setPosition(p)\<close>.\<close>

definition editor_setPosition :: "int \<times> int \<Rightarrow> panel \<Rightarrow> panel" where
  "editor_setPosition p s =
     (case editorRef s of None \<Rightarrow> s | Some ed \<Rightarrow> s\<lparr> editorRef := Some (ed\<lparr> cursor := Some p \<rparr>) \<rparr>)"

text \<open>The first two effects of \<open>handleCodeUpdate\<close> on a foreign update: set the flag, and
  call \<open>onCodeChange(remoteCode)\<close>.\<close>

definition apply_remote :: "string \<Rightarrow> panel \<Rightarrow> panel" where
  "apply_remote remoteCode s =
     s\<lparr> isRemoteChangeRef := True, code_calls := code_calls s @ [remoteCode] \<rparr>"

text \<open>\<open>handleCodeUpdate({ code: remoteCode, language, userId: remoteUserId })\<close>.\<close>

definition handleCodeUpdate :: "string \<Rightarrow> string \<Rightarrow> string \<Rightarrow> panel \<Rightarrow> panel" where
  "handleCodeUpdate remoteCode language remoteUserId s =
     (if Some remoteUserId = p_userId s then s
      else
        (let s1 = apply_remote remoteCode s in
         case editorRef s1 of
           None \<Rightarrow> s1
         | Some ed \<Rightarrow>
             (let currentPosition = cursor ed;
                  s2 = editor_setValue remoteCode ed s1
              in case currentPosition of
                   None \<Rightarrow> s2
                 | Some p \<Rightarrow> editor_setPosition p s2)))"

text \<open>What happens to a panel: the editor finishes loading and \<open>onMount\<close> runs, the
  user changes the text to \<open>v\<close> (Monaco calls \<open>onChange\<close>), a \<open>code-update\<close> arrives (the
  listener is registered only when the \<open>socket\<close> prop is set), the transport of the socket
  connects or drops, or \<open>d\<close> milliseconds pass with nothing else happening.\<close>

datatype panel_action =
    EditorMounted editor
  | LocalEdit string
  | CodeUpdateReceived string string string
  | SocketConnected
  | SocketDisconnected
  | Elapse nat

text \<open>Socket.IO sets \<open>connected\<close> on the socket object when the transport connects and
  clears it when the transport drops; the panel holds that same object.\<close>

definition socket_set_connected :: "bool \<Rightarrow> panel \<Rightarrow> panel" where
  "socket_set_connected b s =
     (case p_socket s of
        None \<Rightarrow> s
      | Some sk \<Rightarrow> s\<lparr> p_socket := Some (sk\<lparr> connected := b \<rparr>) \<rparr>)"

definition local_edit :: "string \<Rightarrow> panel \<Rightarrow> panel" where
  "local_edit v s =
     handleCodeChange v
       (case editorRef s of
          None \<Rightarrow> s
        | Some ed \<Rightarrow> s\<lparr> editorRef := Some (ed\<lparr> content := v \<rparr>) \<rparr>)"

definition receive_code_update :: "string \<Rightarrow> string \<Rightarrow> string \<Rightarrow> panel \<Rightarrow> panel" where
  "receive_code_update remoteCode language remoteUserId s =
     (if p_socket s = None then s else handleCodeUpdate remoteCode language remoteUserId s)"

text \<open>Time passes: every timeout that is due by the new time runs its callback, in the
  order the timeouts were set (all have the same delay), and is no longer pending.\<close>

definition elapse :: "nat \<Rightarrow> panel \<Rightarrow> panel" where
  "elapse d s =
     (let now = clock s + d;
          due = filter (\<lambda>(i, t, m). t \<le> now) (timers s);
          rest = filter (\<lambda>(i, t, m). \<not> t \<le> now) (timers s)
      in fold (\<lambda>(i, t, m). timer_callback m) due (s\<lparr> clock := now, timers := rest \<rparr>))"

fun panel_step :: "panel_action \<Rightarrow> panel \<Rightarrow> panel" where
  "panel_step (EditorMounted ed) s = handleEditorDidMount ed s"
| "panel_step (LocalEdit v) s = local_edit v s"
| "panel_step (CodeUpdateReceived remoteCode language remoteUserId) s =
     receive_code_update remoteCode language remoteUserId s"
| "panel_step SocketConnected s = socket_set_connected True s"
| "panel_step SocketDisconnected s = socket_set_connected False s"
| "panel_step (Elapse d) s = elapse d s"

definition panel_run :: "panel \<Rightarrow> panel_action list \<Rightarrow> panel" where
  "panel_run s acts = fold panel_step acts s"

text \<open>The \<open>emit\<close> calls made so far on the panel's socket.\<close>

definition outbox :: "panel \<Rightarrow> client_msg list" where
  "outbox s = (case p_socket s of None \<Rightarrow> [] | Some sk \<Rightarrow> sent sk)"

text \<open>A burst of edits: each edit is followed by the time that passes before the next.\<close>

definition burst :: "(string \<times> nat) list \<Rightarrow> panel_action list" where
  "burst eds = concat (map (\<lambda>(v, d). [LocalEdit v, Elapse d]) eds)"

text \<open>The only timeout that can be pending is the one \<open>debounceTimerRef\<close> holds; this
  is so in every state a mounted panel reaches.\<close>

definition timer_held :: "panel \<Rightarrow> bool" where
  "timer_held s = list_all (\<lambda>(i, due, m). debounceTimerRef s = Some i) (timers s)"

text \<open>The panel can emit (the condition of \<open>handleCodeChange\<close> holds) and no remote
  update is being applied.\<close>

definition panel_ready :: "panel \<Rightarrow> bool" where
  "panel_ready s =
     (socket_connected (p_socket s) \<and> truthy (p_roomId s) \<and> truthy (p_userId s) \<and>
      \<not> isRemoteChangeRef s \<and> timer_held s)"

section \<open>Properties of the hub\<close>

text \<open>The definitions that evaluate a run of the hub on concrete events.\<close>

lemmas hub_eval = reachable_def hub_init_def hub_step_def on_connection_def on_join_room_def
  on_code_change_def on_cursor_change_def on_language_change_def on_run_code_def
  on_disconnect_def on_leave_room_def remove_from_room_def socket_join_def socket_leave_def
  socket_leave_all_def to_emit_def self_emit_def map_has_def map_get_def map_set_def
  map_delete_def map_size_def map_values_def Let_def listParticipants_def members_def

subsection \<open>The handlers on the registry\<close>

lemma update_mid: "k \<notin> fst ` set pre \<Longrightarrow> AList.update k v (pre @ (k, w) # post) = pre @ (k, v) # post"
  by (induction pre) auto

lemma delete_mid: "k \<notin> fst ` set pre \<Longrightarrow> k \<notin> fst ` set post \<Longrightarrow> AList.delete k (pre @ (k, w) # post) = pre @ post"
  by (induction pre) (auto simp: image_iff)

lemma to_emit_rooms [simp]: "to_emit (h\<lparr>rooms := rs\<rparr>) sock r ev = to_emit h sock r ev"
  by (simp add: to_emit_def)

lemma remove_from_room_mid:
  assumes "r \<notin> fst ` set pre" "r \<notin> fst ` set post"
  shows "remove_from_room sock r us (h\<lparr>rooms := pre @ (r, us) # post\<rparr>, out) =
         (h\<lparr>rooms := pre @ purge_entry sock (r, us) @ post\<rparr>, out @ left_events h sock [(r, us)])"
  using assms
  by (auto simp: remove_from_room_def map_has_def map_get_def map_set_def map_delete_def map_size_def
      update_mid delete_mid Let_def split: option.splits)

lemma keys_purge_entry: "fst ` set (purge_entry sock (r, us)) \<subseteq> {r}"
  by auto

lemma left_events_append: "left_events h sock (xs @ ys) = left_events h sock xs @ left_events h sock ys"
  by (induction xs) (auto split: option.splits)

lemma fold_remove:
  "distinct (map fst (pre @ es)) \<Longrightarrow>
   fold (\<lambda>(r, users). remove_from_room sock r users) es (h\<lparr>rooms := pre @ es\<rparr>, out) =
   (h\<lparr>rooms := pre @ purge sock es\<rparr>, out @ left_events h sock es)"
proof (induction es arbitrary: pre out)
  case Nil
  then show ?case by (simp add: purge_def)
next
  case (Cons e es)
  obtain r us where e: "e = (r, us)" by (cases e)
  from Cons.prems e have notin: "r \<notin> fst ` set pre" "r \<notin> fst ` set es"
    by auto
  have d: "distinct (map fst ((pre @ purge_entry sock (r, us)) @ es))"
    using Cons.prems e keys_purge_entry[of sock r us]
    by (auto split: if_splits)
  have "fold (\<lambda>(r, users). remove_from_room sock r users) (e # es) (h\<lparr>rooms := pre @ e # es\<rparr>, out)
      = fold (\<lambda>(r, users). remove_from_room sock r users) es
          (h\<lparr>rooms := (pre @ purge_entry sock (r, us)) @ es\<rparr>, out @ left_events h sock [(r, us)])"
    using remove_from_room_mid[OF notin] e by simp
  also have "\<dots> = (h\<lparr>rooms := (pre @ purge_entry sock (r, us)) @ purge sock es\<rparr>,
                    (out @ left_events h sock [(r, us)]) @ left_events h sock es)"
    by (rule Cons.IH[OF d])
  finally show ?case
    using e by (simp add: purge_def split: option.splits)
qed

lemma rooms_on_join:
  "rooms (fst (on_join_room sock r uid uname h)) =
     AList.update r (AList.update sock \<lparr>userId = uid, userName = uname\<rparr>
        (case map_of (rooms h) r of None \<Rightarrow> [] | Some us \<Rightarrow> us)) (rooms h)"
  by (auto simp: on_join_room_def socket_join_def map_has_def map_get_def map_set_def Let_def
      AList.update_conv')

lemma adapter_on_join:
  "adapter (fst (on_join_room sock r uid uname h)) = (adapter h)(r := insert sock (adapter h r))"
  by (simp add: on_join_room_def socket_join_def Let_def)

lemma remove_from_room_rooms:
  "rooms (fst (remove_from_room sock r us (h, out))) =
     (if map_of us sock = None then rooms h
      else if AList.delete sock us = [] then AList.delete r (rooms h)
      else AList.update r (AList.delete sock us) (rooms h))"
  by (auto simp: remove_from_room_def map_has_def map_get_def map_set_def map_delete_def
      map_size_def Let_def AList.delete_update_same split: option.splits)

lemma rooms_on_leave:
  "rooms (fst (on_leave_room sock r h)) =
     (case map_of (rooms h) r of
        None \<Rightarrow> rooms h
      | Some us \<Rightarrow>
          if map_of us sock = None then rooms h
          else if AList.delete sock us = [] then AList.delete r (rooms h)
          else AList.update r (AList.delete sock us) (rooms h))"
  by (auto simp: on_leave_room_def socket_leave_def map_has_def map_get_def
      remove_from_room_rooms split: option.splits)

lemma on_disconnect_eq:
  assumes "distinct (map fst (rooms h))"
  shows "on_disconnect sock h =
    ((socket_leave_all sock h)\<lparr>rooms := purge sock (rooms h)\<rparr>,
     left_events (socket_leave_all sock h) sock (rooms h))"
proof -
  let ?h1 = "socket_leave_all sock h"
  have r1: "rooms ?h1 = rooms h" by (simp add: socket_leave_all_def)
  have h1eq: "?h1\<lparr>rooms := rooms h\<rparr> = ?h1" by (simp add: socket_leave_all_def)
  have "on_disconnect sock h =
     fold (\<lambda>(r, users). remove_from_room sock r users) (rooms h) (?h1\<lparr>rooms := [] @ rooms h\<rparr>, [])"
    by (simp add: on_disconnect_def Let_def r1 h1eq)
  also have "\<dots> = (?h1\<lparr>rooms := [] @ purge sock (rooms h)\<rparr>, [] @ left_events ?h1 sock (rooms h))"
    using assms by (intro fold_remove) simp
  finally show ?thesis by simp
qed

lemma map_of_purge:
  "distinct (map fst rs) \<Longrightarrow>
   map_of (purge sock rs) r =
     (case map_of rs r of
        None \<Rightarrow> None
      | Some us \<Rightarrow>
          if map_of us sock = None then Some us
          else if AList.delete sock us = [] then None
          else Some (AList.delete sock us))"
proof (induction rs)
  case Nil
  then show ?case by (simp add: purge_def)
next
  case (Cons e rs)
  obtain r' us' where e: "e = (r', us')" by (cases e)
  from Cons.prems e have "map_of rs r' = None"
    by (simp add: map_of_eq_None_iff)
  with Cons e show ?case
    by (auto simp: purge_def map_has_def map_delete_def split: option.splits)
qed

subsection \<open>Membership after each handler\<close>

lemma members_alt: "members h r = (case map_of (rooms h) r of None \<Rightarrow> {} | Some us \<Rightarrow> fst ` set us)"
  by (simp add: members_def listParticipants_def map_get_def split: option.splits)

lemma keys_delete: "fst ` set (AList.delete k al) = fst ` set al - {k}"
  using AList.delete_keys[of k al] by (metis list.set_map set_removeAll)

lemma members_on_join:
  "members (fst (on_join_room sock r0 uid uname h)) r =
     (if r = r0 then insert sock (members h r) else members h r)"
  by (auto simp: members_alt rooms_on_join AList.update_conv' AList.dom_update split: option.splits)

lemma members_on_leave:
  "members (fst (on_leave_room sock r0 h)) r =
     (if r = r0 then members h r - {sock} else members h r)"
proof -
  have nk: "map_of us sock = None \<Longrightarrow> fst ` set us - {sock} = fst ` set us" for us :: "(socketId \<times> user) list"
    by (auto simp: map_of_eq_None_iff)
  have em: "AList.delete sock us = [] \<Longrightarrow> fst ` set us - {sock} = {}" for us :: "(socketId \<times> user) list"
    using keys_delete[of sock us] by simp
  show ?thesis
    by (auto simp: members_alt rooms_on_leave AList.update_conv' AList.delete_conv' keys_delete nk
        dest: em split: option.splits)
qed

lemma members_on_disconnect:
  assumes "distinct (map fst (rooms h))"
  shows "members (fst (on_disconnect sock h)) r = members h r - {sock}"
proof -
  have nk: "map_of us sock = None \<Longrightarrow> fst ` set us - {sock} = fst ` set us" for us :: "(socketId \<times> user) list"
    by (auto simp: map_of_eq_None_iff)
  have em: "AList.delete sock us = [] \<Longrightarrow> fst ` set us - {sock} = {}" for us :: "(socketId \<times> user) list"
    using keys_delete[of sock us] by simp
  show ?thesis
    using assms
    by (auto simp: members_alt on_disconnect_eq map_of_purge keys_delete nk dest: em split: option.splits)
qed

subsection \<open>The registry invariant is preserved\<close>

lemma in_updateD: "(a, b) \<in> set (AList.update k v al) \<Longrightarrow> (a = k \<and> b = v) \<or> (a, b) \<in> set al"
  by (induction al) (auto split: if_splits)

lemma in_deleteD: "(a, b) \<in> set (AList.delete k al) \<Longrightarrow> (a, b) \<in> set al"
  by (auto simp: AList.delete_eq)

lemma registry_inv_join: "registry_inv h \<Longrightarrow> registry_inv (fst (on_join_room sock r uid uname h))"
  unfolding registry_inv_def rooms_on_join
  by (auto simp: AList.distinct_update split: option.splits dest!: map_of_SomeD in_updateD)

lemma registry_inv_leave: "registry_inv h \<Longrightarrow> registry_inv (fst (on_leave_room sock r h))"
  unfolding registry_inv_def rooms_on_leave
  by (auto simp: AList.distinct_update AList.distinct_delete split: option.splits
      dest!: map_of_SomeD in_updateD in_deleteD)

lemma keys_purge: "fst ` set (purge sock rs) \<subseteq> fst ` set rs"
  by (induction rs) (auto simp: purge_def split: if_splits)

lemma distinct_purge: "distinct (map fst rs) \<Longrightarrow> distinct (map fst (purge sock rs))"
proof (induction rs)
  case Nil
  then show ?case by (simp add: purge_def)
next
  case (Cons e rs)
  obtain r us where e: "e = (r, us)" by (cases e)
  have "purge sock (e # rs) = purge_entry sock e @ purge sock rs"
    by (simp add: purge_def)
  moreover have "r \<notin> fst ` set (purge sock rs)"
    using keys_purge[of sock rs] Cons.prems e by auto
  ultimately show ?case
    using Cons e by (auto split: if_splits)
qed

lemma entries_purge:
  "(r, us) \<in> set (purge sock rs) \<Longrightarrow>
   \<exists>us0. (r, us0) \<in> set rs \<and>
     (us = us0 \<or> (us = AList.delete sock us0 \<and> us \<noteq> []))"
  by (induction rs) (auto simp: purge_def map_delete_def split: if_splits)

lemma registry_inv_disconnect:
  assumes "registry_inv h"
  shows "registry_inv (fst (on_disconnect sock h))"
proof -
  from assms have d: "distinct (map fst (rooms h))" by (simp add: registry_inv_def)
  have rs: "rooms (fst (on_disconnect sock h)) = purge sock (rooms h)"
    by (simp add: on_disconnect_eq[OF d])
  show ?thesis
    unfolding registry_inv_def rs
    using assms distinct_purge[OF d, of sock]
    by (auto simp: registry_inv_def AList.distinct_delete dest!: entries_purge)
qed

lemma registry_inv_same: "rooms h' = rooms h \<Longrightarrow> registry_inv h \<Longrightarrow> registry_inv h'"
  by (simp add: registry_inv_def)

lemma relay_rooms:
  "rooms (fst (on_connection sock h)) = rooms h"
  "rooms (fst (on_code_change now sock r code language uid h)) = rooms h"
  "rooms (fst (on_cursor_change sock r position uid uname h)) = rooms h"
  "rooms (fst (on_language_change sock r language uid h)) = rooms h"
  "rooms (fst (on_run_code now sock r code language uid h)) = rooms h"
  by (simp_all add: on_connection_def socket_join_def on_code_change_def on_cursor_change_def
      on_language_change_def on_run_code_def)

lemma registry_inv_step: "registry_inv h \<Longrightarrow> registry_inv (fst (hub_step h e))"
  unfolding hub_step_def
  by (cases "msg e")
     (simp_all add: registry_inv_join registry_inv_leave registry_inv_disconnect
        registry_inv_same[OF relay_rooms(1)] registry_inv_same[OF relay_rooms(2)]
        registry_inv_same[OF relay_rooms(3)] registry_inv_same[OF relay_rooms(4)]
        registry_inv_same[OF relay_rooms(5)])

lemma registry_inv_run: "registry_inv h \<Longrightarrow> registry_inv (hub_run h es)"
  by (induction es arbitrary: h) (simp_all add: registry_inv_step)

lemma registry_inv_init: "registry_inv hub_init"
  by (simp add: registry_inv_def hub_init_def)

lemma registry_inv_reachable: "registry_inv (reachable es)"
  by (simp add: reachable_def registry_inv_run registry_inv_init)

subsection \<open>Membership along a history\<close>

lemma members_step:
  assumes "registry_inv h"
  shows "c \<in> members (fst (hub_step h e)) r \<longleftrightarrow>
         joins c r e \<or> (c \<in> members h r \<and> \<not> departs c r e)"
proof -
  from assms have d: "distinct (map fst (rooms h))" by (simp add: registry_inv_def)
  have same: "rooms h' = rooms h \<Longrightarrow> members h' r = members h r" for h'
    by (simp add: members_def listParticipants_def)
  show ?thesis
    unfolding hub_step_def
    by (cases "msg e")
       (auto simp: joins_def departs_def members_on_join members_on_leave
          members_on_disconnect[OF d] same[OF relay_rooms(1)] same[OF relay_rooms(2)]
          same[OF relay_rooms(3)] same[OF relay_rooms(4)] same[OF relay_rooms(5)])
qed

lemma members_run:
  "registry_inv h \<Longrightarrow>
   c \<in> members (hub_run h es) r \<longleftrightarrow>
     joined_and_not_left es r c \<or> (c \<in> members h r \<and> list_all (\<lambda>e. \<not> departs c r e) es)"
proof (induction es arbitrary: h)
  case Nil
  then show ?case by simp
next
  case (Cons e es)
  have inv': "registry_inv (fst (hub_step h e))"
    using Cons.prems by (rule registry_inv_step)
  show ?case
    using Cons.IH[OF inv'] members_step[OF Cons.prems, of c e r]
    by auto
qed

text \<open>
  C1, membership consistency. After any sequence of events handled from the empty hub, a
  connection is in the participant set of a room exactly when it has joined that room
  and has not since left it or disconnected; and the participant list of the room holds
  each connection once.
\<close>

theorem membership_consistency:
  "(c \<in> members (reachable es) r \<longleftrightarrow> joined_and_not_left es r c) \<and>
   distinct (map fst (listParticipants (reachable es) r))"
proof
  show "c \<in> members (reachable es) r \<longleftrightarrow> joined_and_not_left es r c"
    using members_run[OF registry_inv_init, of c es r]
    by (simp add: reachable_def members_def listParticipants_def map_get_def hub_init_def)
  show "distinct (map fst (listParticipants (reachable es) r))"
    using registry_inv_reachable[of es]
    by (auto simp: registry_inv_def listParticipants_def map_get_def split: option.splits
        dest!: map_of_SomeD)
qed

theorem membership_consistency_witness:
  "''B'' \<in> members (reachable
      [\<lparr>origin = ''A'', at = 11, msg = JoinRoom ''r1'' ''u1'' ''Alice''\<rparr>,
       \<lparr>origin = ''B'', at = 12, msg = JoinRoom ''r1'' ''u2'' ''Bob''\<rparr>,
       \<lparr>origin = ''A'', at = 13, msg = Disconnect\<rparr>]) ''r1'' \<and>
   ''A'' \<notin> members (reachable
      [\<lparr>origin = ''A'', at = 11, msg = JoinRoom ''r1'' ''u1'' ''Alice''\<rparr>,
       \<lparr>origin = ''B'', at = 12, msg = JoinRoom ''r1'' ''u2'' ''Bob''\<rparr>,
       \<lparr>origin = ''A'', at = 13, msg = Disconnect\<rparr>]) ''r1''"
proof -
  let ?es = "[\<lparr>origin = ''A'', at = 11, msg = JoinRoom ''r1'' ''u1'' ''Alice''\<rparr>,
       \<lparr>origin = ''B'', at = 12, msg = JoinRoom ''r1'' ''u2'' ''Bob''\<rparr>,
       \<lparr>origin = ''A'', at = 13, msg = Disconnect\<rparr>]"
  have b: "joined_and_not_left ?es ''r1'' ''B''" and a: "\<not> joined_and_not_left ?es ''r1'' ''A''"
    by (simp_all add: joins_def departs_def)
  from membership_consistency[of "''B''" ?es "''r1''"] b
  have "''B'' \<in> members (reachable ?es) ''r1''" by blast
  moreover from membership_consistency[of "''A''" ?es "''r1''"] a
  have "''A'' \<notin> members (reachable ?es) ''r1''" by blast
  ultimately show ?thesis by (rule conjI)
qed

lemma listParticipants_empty_iff: "registry_inv h \<Longrightarrow> listParticipants h r = [] \<longleftrightarrow> \<not> map_has (rooms h) r"
  by (auto simp: registry_inv_def listParticipants_def map_get_def map_has_def
      split: option.splits dest!: map_of_SomeD)

text \<open>
  C3, room garbage collection. In every reachable state each room that is a key of the
  registry has at least one participant; and when the only participant of a room leaves
  it or disconnects, the next state has no entry for the room: listing its participants
  gives the empty list and the room id is no longer a key.
\<close>

theorem room_garbage_collection:
  "(\<forall>r. map_has (rooms (reachable es)) r \<longrightarrow> listParticipants (reachable es) r \<noteq> [])
   \<and> (members (reachable es) r = {c} \<and> departs c r e \<longrightarrow>
        listParticipants (fst (hub_step (reachable es) e)) r = [] \<and>
        \<not> map_has (rooms (fst (hub_step (reachable es) e))) r)"
proof (intro conjI allI impI)
  fix r'
  assume "map_has (rooms (reachable es)) r'"
  then show "listParticipants (reachable es) r' \<noteq> []"
    using listParticipants_empty_iff[OF registry_inv_reachable, of es r'] by simp
next
  assume a: "members (reachable es) r = {c} \<and> departs c r e"
  let ?h' = "fst (hub_step (reachable es) e)"
  have inv': "registry_inv ?h'"
    by (rule registry_inv_step[OF registry_inv_reachable])
  from a have dep: "departs c r e" and one: "members (reachable es) r = {c}"
    by simp_all
  have nj: "\<not> joins c' r e" for c'
    using dep by (auto simp: joins_def departs_def)
  have "c' \<notin> members ?h' r" for c'
  proof -
    have "c' \<in> members ?h' r \<longleftrightarrow>
          joins c' r e \<or> (c' \<in> members (reachable es) r \<and> \<not> departs c' r e)"
      by (rule members_step[OF registry_inv_reachable])
    with dep one nj[of c'] show ?thesis by simp
  qed
  then have "members ?h' r = {}" by blast
  then have e: "listParticipants ?h' r = []"
    by (simp add: members_def)
  then show "listParticipants ?h' r = []" .
  from e show "\<not> map_has (rooms ?h') r"
    using listParticipants_empty_iff[OF inv', of r] by simp
qed

theorem room_garbage_collection_witness:
  "members (reachable [\<lparr>origin = ''A'', at = 1, msg = JoinRoom ''r1'' ''u1'' ''Alice''\<rparr>]) ''r1'' = {''A''} \<and>
   departs ''A'' ''r1'' \<lparr>origin = ''A'', at = 2, msg = LeaveRoom ''r1''\<rparr> \<and>
   listParticipants (fst (hub_step
      (reachable [\<lparr>origin = ''A'', at = 1, msg = JoinRoom ''r1'' ''u1'' ''Alice''\<rparr>])
      \<lparr>origin = ''A'', at = 2, msg = LeaveRoom ''r1''\<rparr>)) ''r1'' = [] \<and>
   \<not> map_has (rooms (fst (hub_step
      (reachable [\<lparr>origin = ''A'', at = 1, msg = JoinRoom ''r1'' ''u1'' ''Alice''\<rparr>])
      \<lparr>origin = ''A'', at = 2, msg = LeaveRoom ''r1''\<rparr>))) ''r1''"
proof -
  let ?es = "[\<lparr>origin = ''A'', at = 1, msg = JoinRoom ''r1'' ''u1'' ''Alice''\<rparr>]"
  let ?e = "\<lparr>origin = ''A'', at = 2, msg = LeaveRoom ''r1''\<rparr>"
  have hyp: "members (reachable ?es) ''r1'' = {''A''} \<and> departs ''A'' ''r1'' ?e"
    by (simp add: hub_eval departs_def)
  from room_garbage_collection[where es = ?es and r = "''r1''" and c = "''A''" and e = ?e] hyp
  show ?thesis by blast
qed

subsection \<open>The Socket.IO rooms contain the registry\<close>

lemma remove_from_room_adapter:
  "adapter (fst (remove_from_room sock r us (h, out))) = adapter h"
  by (simp add: remove_from_room_def Let_def split: option.splits)

lemma adapter_on_leave:
  "adapter (fst (on_leave_room sock r h)) = (adapter h)(r := adapter h r - {sock})"
  by (simp add: on_leave_room_def Let_def remove_from_room_adapter socket_leave_def
      split: option.splits)

lemma adapter_on_disconnect:
  "distinct (map fst (rooms h)) \<Longrightarrow>
   adapter (fst (on_disconnect sock h)) = (\<lambda>r. adapter h r - {sock})"
  by (simp add: on_disconnect_eq socket_leave_all_def)

lemma members_adapter_upd [simp]: "members (h\<lparr>adapter := a\<rparr>) r = members h r"
  by (simp add: members_def listParticipants_def)

lemma adapter_inv_step:
  assumes "registry_inv h" "adapter_inv h"
  shows "adapter_inv (fst (hub_step h e))"
proof -
  from assms(1) have d: "distinct (map fst (rooms h))" by (simp add: registry_inv_def)
  have same: "rooms h' = rooms h \<Longrightarrow> members h' r = members h r" for h' r
    by (simp add: members_def listParticipants_def)
  from assms(2) have sub: "members h r \<subseteq> adapter h r" for r
    by (simp add: adapter_inv_def)
  show ?thesis
    unfolding hub_step_def adapter_inv_def
  proof (cases "msg e")
    case Connection
    then show "\<forall>r. members (fst (dispatch (msg e) (at e) (origin e) h)) r
                 \<subseteq> adapter (fst (dispatch (msg e) (at e) (origin e) h)) r"
      using sub by (auto simp: on_connection_def socket_join_def)
  next
    case (JoinRoom r0 uid uname)
    then show "\<forall>r. members (fst (dispatch (msg e) (at e) (origin e) h)) r
                 \<subseteq> adapter (fst (dispatch (msg e) (at e) (origin e) h)) r"
      using sub by (auto simp: members_on_join adapter_on_join)
  next
    case (CodeChange r0 code language uid)
    then show "\<forall>r. members (fst (dispatch (msg e) (at e) (origin e) h)) r
                 \<subseteq> adapter (fst (dispatch (msg e) (at e) (origin e) h)) r"
      using sub by (auto simp: same[OF relay_rooms(2)] on_code_change_def)
  next
    case (CursorChange r0 position uid uname)
    then show "\<forall>r. members (fst (dispatch (msg e) (at e) (origin e) h)) r
                 \<subseteq> adapter (fst (dispatch (msg e) (at e) (origin e) h)) r"
      using sub by (auto simp: same[OF relay_rooms(3)] on_cursor_change_def)
  next
    case (LanguageChange r0 language uid)
    then show "\<forall>r. members (fst (dispatch (msg e) (at e) (origin e) h)) r
                 \<subseteq> adapter (fst (dispatch (msg e) (at e) (origin e) h)) r"
      using sub by (auto simp: same[OF relay_rooms(4)] on_language_change_def)
  next
    case (RunCode r0 code language uid)
    then show "\<forall>r. members (fst (dispatch (msg e) (at e) (origin e) h)) r
                 \<subseteq> adapter (fst (dispatch (msg e) (at e) (origin e) h)) r"
      using sub by (auto simp: same[OF relay_rooms(5)] on_run_code_def)
  next
    case Disconnect
    then show "\<forall>r. members (fst (dispatch (msg e) (at e) (origin e) h)) r
                 \<subseteq> adapter (fst (dispatch (msg e) (at e) (origin e) h)) r"
      using sub by (auto simp: members_on_disconnect[OF d] adapter_on_disconnect[OF d])
  next
    case (LeaveRoom r0)
    then show "\<forall>r. members (fst (dispatch (msg e) (at e) (origin e) h)) r
                 \<subseteq> adapter (fst (dispatch (msg e) (at e) (origin e) h)) r"
      using sub by (auto simp: members_on_leave adapter_on_leave)
  qed
qed

lemma adapter_inv_run:
  "registry_inv h \<Longrightarrow> adapter_inv h \<Longrightarrow> adapter_inv (hub_run h es)"
  by (induction es arbitrary: h) (simp_all add: registry_inv_step adapter_inv_step)

lemma adapter_inv_reachable: "adapter_inv (reachable es)"
  unfolding reachable_def
  by (rule adapter_inv_run[OF registry_inv_init])
     (simp add: adapter_inv_def hub_init_def members_def listParticipants_def map_get_def)

lemma members_sub_adapter: "members (reachable es) r - {c} \<subseteq> adapter (reachable es) r - {c}"
  using adapter_inv_reachable[of es] by (auto simp: adapter_inv_def)

subsection \<open>What the handlers emit\<close>

lemma snd_on_join:
  "snd (on_join_room sock r uid uname h) =
     [Broadcast r (adapter h r - {sock}) (UserJoined uid uname sock),
      Unicast sock (RoomUsers (map_values
        (map_set sock \<lparr>userId = uid, userName = uname\<rparr> (listParticipants h r))))]"
  by (auto simp: on_join_room_def Let_def socket_join_def to_emit_def self_emit_def map_has_def
      map_get_def map_set_def listParticipants_def AList.update_conv' split: option.splits)

lemma snd_remove_from_room:
  "snd (remove_from_room sock r us (h, out)) =
     (case map_get us sock of
        None \<Rightarrow> out
      | Some u \<Rightarrow> out @ [Broadcast r (adapter h r - {sock}) (UserLeft (userId u) (userName u) sock)])"
  by (simp add: remove_from_room_def Let_def map_has_def map_get_def to_emit_def split: option.splits)

lemma snd_on_leave:
  "snd (on_leave_room sock r h) =
     (case map_get (listParticipants h r) sock of
        None \<Rightarrow> []
      | Some u \<Rightarrow> [Broadcast r (adapter h r - {sock}) (UserLeft (userId u) (userName u) sock)])"
  by (auto simp: on_leave_room_def Let_def snd_remove_from_room listParticipants_def map_has_def
      map_get_def socket_leave_def split: option.splits)

lemma snd_on_disconnect:
  "distinct (map fst (rooms h)) \<Longrightarrow>
   snd (on_disconnect sock h) = left_events (socket_leave_all sock h) sock (rooms h)"
  by (simp add: on_disconnect_eq)

lemma left_events_shape:
  "em \<in> set (left_events h sock rs) \<Longrightarrow>
   \<exists>r us u. (r, us) \<in> set rs \<and> map_get us sock = Some u \<and>
     em = Broadcast r (adapter h r - {sock}) (UserLeft (userId u) (userName u) sock)"
proof (induction rs)
  case Nil
  then show ?case by simp
next
  case (Cons e rs)
  obtain r0 us0 where e: "e = (r0, us0)" by (cases e)
  show ?case
  proof (cases "em \<in> set (left_events h sock rs)")
    case True
    from Cons.IH[OF True] show ?thesis by auto
  next
    case False
    with Cons.prems e obtain u where "map_get us0 sock = Some u"
      "em = Broadcast r0 (adapter h r0 - {sock}) (UserLeft (userId u) (userName u) sock)"
      by (auto simp: to_emit_def split: option.splits)
    with e show ?thesis by auto
  qed
qed

lemma left_events_complete:
  "(r, us) \<in> set rs \<Longrightarrow> map_get us sock = Some u \<Longrightarrow>
   Broadcast r (adapter h r - {sock}) (UserLeft (userId u) (userName u) sock)
     \<in> set (left_events h sock rs)"
  by (induction rs) (auto simp: to_emit_def split: option.splits)

text \<open>
  C2, join and notify, as the code has it. The \<open>room-users\<close> event goes to the joiner
  alone and lists the users of the room after the joiner has been inserted: the
  participants present before, in insertion order, with the joiner's own entry set among
  them. Every other registered member of the room is a recipient of the one
  \<open>user-joined\<close> broadcast, and the joiner is not.
\<close>

theorem join_notify:
  "snd (hub_step (reachable es) \<lparr>origin = c, at = t, msg = JoinRoom r uid uname\<rparr>) =
     [Broadcast r (adapter (reachable es) r - {c}) (UserJoined uid uname c),
      Unicast c (RoomUsers (map_values
        (map_set c \<lparr>userId = uid, userName = uname\<rparr> (listParticipants (reachable es) r))))]
   \<and> members (reachable es) r - {c} \<subseteq> adapter (reachable es) r - {c}
   \<and> c \<notin> adapter (reachable es) r - {c}"
  using members_sub_adapter[of es r c]
  by (simp add: hub_step_def snd_on_join)

theorem join_notify_witness:
  "snd (hub_step
     (reachable [\<lparr>origin = ''A'', at = 10, msg = Connection\<rparr>,
                 \<lparr>origin = ''A'', at = 11, msg = JoinRoom ''r1'' ''u1'' ''Alice''\<rparr>,
                 \<lparr>origin = ''B'', at = 12, msg = Connection\<rparr>])
     \<lparr>origin = ''B'', at = 13, msg = JoinRoom ''r1'' ''u2'' ''Bob''\<rparr>) =
   [Broadcast ''r1'' {''A''} (UserJoined ''u2'' ''Bob'' ''B''),
    Unicast ''B'' (RoomUsers [\<lparr>userId = ''u1'', userName = ''Alice''\<rparr>,
                              \<lparr>userId = ''u2'', userName = ''Bob''\<rparr>])]"
proof -
  let ?es = "[\<lparr>origin = ''A'', at = 10, msg = Connection\<rparr>,
              \<lparr>origin = ''A'', at = 11, msg = JoinRoom ''r1'' ''u1'' ''Alice''\<rparr>,
              \<lparr>origin = ''B'', at = 12, msg = Connection\<rparr>]"
  have a: "adapter (reachable ?es) ''r1'' - {''B''} = {''A''}"
    by (simp add: hub_eval)
  have l: "listParticipants (reachable ?es) ''r1'' = [(''A'', \<lparr>userId = ''u1'', userName = ''Alice''\<rparr>)]"
    by (simp add: hub_eval)
  from join_notify[of ?es "''B''" 13 "''r1''" "''u2''" "''Bob''"]
  show ?thesis
    by (simp add: a l map_set_def map_values_def)
qed

theorem join_notify_counterexample:
  "Unicast ''B'' (RoomUsers [\<lparr>userId = ''u1'', userName = ''Alice''\<rparr>]) \<notin> set (snd (hub_step
     (reachable [\<lparr>origin = ''A'', at = 10, msg = Connection\<rparr>,
                 \<lparr>origin = ''A'', at = 11, msg = JoinRoom ''r1'' ''u1'' ''Alice''\<rparr>,
                 \<lparr>origin = ''B'', at = 12, msg = Connection\<rparr>])
     \<lparr>origin = ''B'', at = 13, msg = JoinRoom ''r1'' ''u2'' ''Bob''\<rparr>)) \<and>
   Unicast ''B'' (RoomUsers [\<lparr>userId = ''u1'', userName = ''Alice''\<rparr>,
                             \<lparr>userId = ''u2'', userName = ''Bob''\<rparr>]) \<in> set (snd (hub_step
     (reachable [\<lparr>origin = ''A'', at = 10, msg = Connection\<rparr>,
                 \<lparr>origin = ''A'', at = 11, msg = JoinRoom ''r1'' ''u1'' ''Alice''\<rparr>,
                 \<lparr>origin = ''B'', at = 12, msg = Connection\<rparr>])
     \<lparr>origin = ''B'', at = 13, msg = JoinRoom ''r1'' ''u2'' ''Bob''\<rparr>))"
  by (simp add: hub_eval)

lemma left_events_recipients:
  "em \<in> set (left_events h sock rs) \<Longrightarrow> \<exists>r ev. em = Broadcast r (adapter h r - {sock}) ev"
  by (induction rs) (auto simp: to_emit_def split: option.splits)

lemma member_entry:
  assumes "c \<in> members h r"
  shows "\<exists>us u. (r, us) \<in> set (rooms h) \<and> listParticipants h r = us \<and> map_get us c = Some u"
proof -
  from assms obtain us where us: "map_of (rooms h) r = Some us" "c \<in> fst ` set us"
    by (auto simp: members_alt split: option.splits)
  from us(2) obtain u where "map_of us c = Some u"
    by (cases "map_of us c") (auto simp: map_of_eq_None_iff)
  with us(1) show ?thesis
    by (auto simp: listParticipants_def map_get_def dest: map_of_SomeD)
qed

text \<open>
  C4, no self-echo. In every reachable state, whatever event a connection sends, each
  broadcast the hub makes for it reaches every registered participant of the broadcast's
  room other than the sender, and never the sender. The four relay events make exactly
  one broadcast, to the room they name; a disconnect makes a \<open>user-left\<close> broadcast to
  each room the connection was registered in.
\<close>

theorem no_self_echo:
  "(\<forall>em \<in> set (snd (hub_step (reachable es) e)).
      case em of
        Broadcast r R ev \<Rightarrow> origin e \<notin> R \<and> members (reachable es) r - {origin e} \<subseteq> R
      | Unicast c ev \<Rightarrow> True)
   \<and> (case msg e of
        CodeChange r code language uid \<Rightarrow>
          snd (hub_step (reachable es) e) =
            [Broadcast r (adapter (reachable es) r - {origin e}) (CodeUpdate code language uid (at e))]
      | CursorChange r position uid uname \<Rightarrow>
          snd (hub_step (reachable es) e) =
            [Broadcast r (adapter (reachable es) r - {origin e}) (CursorUpdate position uid uname (origin e))]
      | LanguageChange r language uid \<Rightarrow>
          snd (hub_step (reachable es) e) =
            [Broadcast r (adapter (reachable es) r - {origin e}) (LanguageUpdate language uid)]
      | RunCode r code language uid \<Rightarrow>
          snd (hub_step (reachable es) e) =
            [Broadcast r (adapter (reachable es) r - {origin e}) (RunCodeRequest code language uid (at e))]
      | Disconnect \<Rightarrow>
          (\<forall>r. origin e \<in> members (reachable es) r \<longrightarrow>
             (\<exists>u. map_get (listParticipants (reachable es) r) (origin e) = Some u \<and>
                Broadcast r (adapter (reachable es) r - {origin e})
                  (UserLeft (userId u) (userName u) (origin e))
                \<in> set (snd (hub_step (reachable es) e))))
      | _ \<Rightarrow> True)"
proof -
  let ?h = "reachable es"
  let ?c = "origin e"
  have d: "distinct (map fst (rooms ?h))"
    using registry_inv_reachable[of es] by (simp add: registry_inv_def)
  have sub: "members ?h r - {?c} \<subseteq> adapter ?h r - {?c}" for r
    by (rule members_sub_adapter)
  have first: "\<forall>em \<in> set (snd (hub_step ?h e)).
      case em of
        Broadcast r R ev \<Rightarrow> ?c \<notin> R \<and> members ?h r - {?c} \<subseteq> R
      | Unicast c ev \<Rightarrow> True"
  proof (cases "msg e")
    case Connection
    then show ?thesis by (simp add: hub_step_def on_connection_def)
  next
    case (JoinRoom r uid uname)
    then show ?thesis using sub[of r] by (simp add: hub_step_def snd_on_join)
  next
    case (CodeChange r code language uid)
    then show ?thesis using sub[of r] by (simp add: hub_step_def on_code_change_def to_emit_def)
  next
    case (CursorChange r position uid uname)
    then show ?thesis using sub[of r] by (simp add: hub_step_def on_cursor_change_def to_emit_def)
  next
    case (LanguageChange r language uid)
    then show ?thesis using sub[of r] by (simp add: hub_step_def on_language_change_def to_emit_def)
  next
    case (RunCode r code language uid)
    then show ?thesis using sub[of r] by (simp add: hub_step_def on_run_code_def to_emit_def)
  next
    case Disconnect
    have "case em of Broadcast r R ev \<Rightarrow> ?c \<notin> R \<and> members ?h r - {?c} \<subseteq> R | Unicast c ev \<Rightarrow> True"
      if "em \<in> set (left_events (socket_leave_all ?c ?h) ?c (rooms ?h))" for em
    proof -
      from left_events_recipients[OF that] obtain r ev where
        eq: "em = Broadcast r (adapter (socket_leave_all ?c ?h) r - {?c}) ev"
        by (elim exE)
      have a: "adapter (socket_leave_all ?c ?h) r - {?c} = adapter ?h r - {?c}"
        by (simp add: socket_leave_all_def)
      show ?thesis unfolding eq a using sub[of r] by simp
    qed
    with Disconnect show ?thesis by (simp add: hub_step_def snd_on_disconnect[OF d])
  next
    case (LeaveRoom r)
    then show ?thesis using sub[of r]
      by (cases "map_get (listParticipants ?h r) ?c") (simp_all add: hub_step_def snd_on_leave)
  qed
  have second: "case msg e of
        CodeChange r code language uid \<Rightarrow>
          snd (hub_step ?h e) = [Broadcast r (adapter ?h r - {?c}) (CodeUpdate code language uid (at e))]
      | CursorChange r position uid uname \<Rightarrow>
          snd (hub_step ?h e) = [Broadcast r (adapter ?h r - {?c}) (CursorUpdate position uid uname ?c)]
      | LanguageChange r language uid \<Rightarrow>
          snd (hub_step ?h e) = [Broadcast r (adapter ?h r - {?c}) (LanguageUpdate language uid)]
      | RunCode r code language uid \<Rightarrow>
          snd (hub_step ?h e) = [Broadcast r (adapter ?h r - {?c}) (RunCodeRequest code language uid (at e))]
      | Disconnect \<Rightarrow>
          (\<forall>r. ?c \<in> members ?h r \<longrightarrow>
             (\<exists>u. map_get (listParticipants ?h r) ?c = Some u \<and>
                Broadcast r (adapter ?h r - {?c}) (UserLeft (userId u) (userName u) ?c)
                \<in> set (snd (hub_step ?h e))))
      | _ \<Rightarrow> True"
  proof (cases "msg e")
    case Disconnect
    have "\<exists>u. map_get (listParticipants ?h r) ?c = Some u \<and>
            Broadcast r (adapter ?h r - {?c}) (UserLeft (userId u) (userName u) ?c)
            \<in> set (left_events (socket_leave_all ?c ?h) ?c (rooms ?h))"
      if m: "?c \<in> members ?h r" for r
    proof -
      from member_entry[OF m] obtain us u where
        us: "(r, us) \<in> set (rooms ?h)" "listParticipants ?h r = us" "map_get us ?c = Some u"
        by blast
      have a: "adapter (socket_leave_all ?c ?h) r - {?c} = adapter ?h r - {?c}"
        by (simp add: socket_leave_all_def)
      from left_events_complete[OF us(1) us(3), of "socket_leave_all ?c ?h"] us(2,3)
      show ?thesis unfolding a by blast
    qed
    with Disconnect show ?thesis by (simp add: hub_step_def snd_on_disconnect[OF d])
  qed (simp_all add: hub_step_def on_code_change_def on_cursor_change_def on_language_change_def
          on_run_code_def to_emit_def)
  from first second show ?thesis by (rule conjI)
qed

theorem no_self_echo_witness:
  "Broadcast ''r1'' {''A''} (CodeUpdate ''x=1'' ''javascript'' ''u2'' 14)
     \<in> set (snd (hub_step
          (reachable [\<lparr>origin = ''A'', at = 10, msg = Connection\<rparr>,
                      \<lparr>origin = ''A'', at = 11, msg = JoinRoom ''r1'' ''u1'' ''Alice''\<rparr>,
                      \<lparr>origin = ''B'', at = 12, msg = Connection\<rparr>,
                      \<lparr>origin = ''B'', at = 13, msg = JoinRoom ''r1'' ''u2'' ''Bob''\<rparr>])
          \<lparr>origin = ''B'', at = 14, msg = CodeChange ''r1'' ''x=1'' ''javascript'' ''u2''\<rparr>))
   \<and> ''B'' \<notin> {''A''}
   \<and> members (reachable [\<lparr>origin = ''A'', at = 10, msg = Connection\<rparr>,
                      \<lparr>origin = ''A'', at = 11, msg = JoinRoom ''r1'' ''u1'' ''Alice''\<rparr>,
                      \<lparr>origin = ''B'', at = 12, msg = Connection\<rparr>,
                      \<lparr>origin = ''B'', at = 13, msg = JoinRoom ''r1'' ''u2'' ''Bob''\<rparr>]) ''r1''
         - {''B''} \<subseteq> {''A''}"
proof -
  let ?es = "[\<lparr>origin = ''A'', at = 10, msg = Connection\<rparr>,
              \<lparr>origin = ''A'', at = 11, msg = JoinRoom ''r1'' ''u1'' ''Alice''\<rparr>,
              \<lparr>origin = ''B'', at = 12, msg = Connection\<rparr>,
              \<lparr>origin = ''B'', at = 13, msg = JoinRoom ''r1'' ''u2'' ''Bob''\<rparr>]"
  let ?e = "\<lparr>origin = ''B'', at = 14, msg = CodeChange ''r1'' ''x=1'' ''javascript'' ''u2''\<rparr>"
  have mem: "Broadcast ''r1'' {''A''} (CodeUpdate ''x=1'' ''javascript'' ''u2'' 14)
               \<in> set (snd (hub_step (reachable ?es) ?e))"
    by (simp add: hub_eval)
  from no_self_echo[of ?es ?e, THEN conjunct1, THEN bspec, OF mem] mem
  show ?thesis by simp
qed

lemma listParticipants_on_leave:
  "listParticipants (fst (on_leave_room sock r0 h)) r =
     (if r = r0 then map_delete sock (listParticipants h r) else listParticipants h r)"
proof -
  have nk: "map_of us sock = None \<Longrightarrow> AList.delete sock us = us" for us :: "(socketId \<times> user) list"
    by (simp add: map_of_eq_None_iff)
  show ?thesis
    by (auto simp: listParticipants_def map_get_def map_delete_def rooms_on_leave
        AList.update_conv' AList.delete_conv' nk split: option.splits)
qed

lemma rooms_on_leave_nonmember:
  "map_get (listParticipants h r) sock = None \<Longrightarrow> rooms (fst (on_leave_room sock r h)) = rooms h"
  by (auto simp: rooms_on_leave listParticipants_def map_get_def split: option.splits)

text \<open>
  C8, \<open>leave-room\<close> is exact. From any reachable state: if the leaving connection is
  registered in the named room, exactly its entry is removed from that room, no other
  room changes, and one \<open>user-left\<close> event with the stored user id and user name and
  the connection id is broadcast, which reaches all remaining participants of the room
  and not the leaver. If the room does not exist or does not hold the connection, the
  registry is unchanged and nothing is emitted.
\<close>

theorem leave_room_exact:
  "(case map_get (listParticipants (reachable es) r) c of
      Some u \<Rightarrow>
        snd (hub_step (reachable es) \<lparr>origin = c, at = t, msg = LeaveRoom r\<rparr>) =
          [Broadcast r (adapter (reachable es) r - {c}) (UserLeft (userId u) (userName u) c)]
        \<and> listParticipants (fst (hub_step (reachable es) \<lparr>origin = c, at = t, msg = LeaveRoom r\<rparr>)) r =
            map_delete c (listParticipants (reachable es) r)
        \<and> (\<forall>r'. r' \<noteq> r \<longrightarrow>
              listParticipants (fst (hub_step (reachable es) \<lparr>origin = c, at = t, msg = LeaveRoom r\<rparr>)) r' =
              listParticipants (reachable es) r')
        \<and> members (fst (hub_step (reachable es) \<lparr>origin = c, at = t, msg = LeaveRoom r\<rparr>)) r =
            members (reachable es) r - {c}
        \<and> members (reachable es) r - {c} \<subseteq> adapter (reachable es) r - {c}
    | None \<Rightarrow>
        rooms (fst (hub_step (reachable es) \<lparr>origin = c, at = t, msg = LeaveRoom r\<rparr>)) = rooms (reachable es)
        \<and> snd (hub_step (reachable es) \<lparr>origin = c, at = t, msg = LeaveRoom r\<rparr>) = [])"
proof (cases "map_get (listParticipants (reachable es) r) c")
  case None
  then show ?thesis
    by (simp add: hub_step_def snd_on_leave rooms_on_leave_nonmember)
next
  case (Some u)
  then show ?thesis
    using members_sub_adapter[of es r c]
    by (simp add: hub_step_def snd_on_leave listParticipants_on_leave members_on_leave)
qed

theorem leave_room_exact_witness:
  "map_get (listParticipants
      (reachable [\<lparr>origin = ''A'', at = 10, msg = Connection\<rparr>,
                  \<lparr>origin = ''A'', at = 11, msg = JoinRoom ''r1'' ''u1'' ''Alice''\<rparr>,
                  \<lparr>origin = ''B'', at = 12, msg = Connection\<rparr>,
                  \<lparr>origin = ''B'', at = 13, msg = JoinRoom ''r1'' ''u2'' ''Bob''\<rparr>]) ''r1'') ''A''
     = Some \<lparr>userId = ''u1'', userName = ''Alice''\<rparr>
   \<and> snd (hub_step
      (reachable [\<lparr>origin = ''A'', at = 10, msg = Connection\<rparr>,
                  \<lparr>origin = ''A'', at = 11, msg = JoinRoom ''r1'' ''u1'' ''Alice''\<rparr>,
                  \<lparr>origin = ''B'', at = 12, msg = Connection\<rparr>,
                  \<lparr>origin = ''B'', at = 13, msg = JoinRoom ''r1'' ''u2'' ''Bob''\<rparr>])
      \<lparr>origin = ''A'', at = 14, msg = LeaveRoom ''r1''\<rparr>)
     = [Broadcast ''r1'' {''B''} (UserLeft ''u1'' ''Alice'' ''A'')]
   \<and> map_get (listParticipants
      (reachable [\<lparr>origin = ''A'', at = 10, msg = Connection\<rparr>,
                  \<lparr>origin = ''A'', at = 11, msg = JoinRoom ''r1'' ''u1'' ''Alice''\<rparr>]) ''r2'') ''A''
     = None
   \<and> snd (hub_step
      (reachable [\<lparr>origin = ''A'', at = 10, msg = Connection\<rparr>,
                  \<lparr>origin = ''A'', at = 11, msg = JoinRoom ''r1'' ''u1'' ''Alice''\<rparr>])
      \<lparr>origin = ''A'', at = 14, msg = LeaveRoom ''r2''\<rparr>) = []"
proof -
  let ?es = "[\<lparr>origin = ''A'', at = 10, msg = Connection\<rparr>,
              \<lparr>origin = ''A'', at = 11, msg = JoinRoom ''r1'' ''u1'' ''Alice''\<rparr>,
              \<lparr>origin = ''B'', at = 12, msg = Connection\<rparr>,
              \<lparr>origin = ''B'', at = 13, msg = JoinRoom ''r1'' ''u2'' ''Bob''\<rparr>]"
  let ?es2 = "[\<lparr>origin = ''A'', at = 10, msg = Connection\<rparr>,
               \<lparr>origin = ''A'', at = 11, msg = JoinRoom ''r1'' ''u1'' ''Alice''\<rparr>]"
  have g: "map_get (listParticipants (reachable ?es) ''r1'') ''A'' = Some \<lparr>userId = ''u1'', userName = ''Alice''\<rparr>"
    by (simp add: hub_eval)
  have a: "adapter (reachable ?es) ''r1'' - {''A''} = {''B''}"
    by (simp add: hub_eval insert_Diff_if)
  have n: "map_get (listParticipants (reachable ?es2) ''r2'') ''A'' = None"
    by (simp add: hub_eval)
  have "snd (hub_step (reachable ?es) \<lparr>origin = ''A'', at = 14, msg = LeaveRoom ''r1''\<rparr>)
         = [Broadcast ''r1'' {''B''} (UserLeft ''u1'' ''Alice'' ''A'')]"
    using leave_room_exact[where es = ?es and r = "''r1''" and c = "''A''" and t = 14]
    by (simp add: g a)
  moreover have "snd (hub_step (reachable ?es2) \<lparr>origin = ''A'', at = 14, msg = LeaveRoom ''r2''\<rparr>) = []"
    using leave_room_exact[where es = ?es2 and r = "''r2''" and c = "''A''" and t = 14]
    by (simp add: n)
  ultimately show ?thesis using g n by simp
qed

subsection \<open>Rooms per connection\<close>

lemma disciplined_joinD:
  assumes "disciplined_join h e" "joins c r e" "c \<in> members h r'"
  shows "r' = r"
proof -
  from assms(2) obtain uid uname where m: "msg e = JoinRoom r uid uname" and o: "origin e = c"
    by (auto simp: joins_def split: client_msg.splits)
  from member_entry[OF assms(3)] obtain us u where
    us: "(r', us) \<in> set (rooms h)" "map_get us c = Some u"
    by blast
  from assms(1) m have "\<forall>(r', us) \<in> set (rooms h). map_has us c \<longrightarrow> r' = r"
    by (simp add: disciplined_join_def list_all_iff o)
  with us show ?thesis
    by (auto simp: map_has_def map_get_def)
qed

lemma single_room_step:
  assumes inv: "registry_inv h"
    and one: "\<forall>c r r'. c \<in> members h r \<longrightarrow> c \<in> members h r' \<longrightarrow> r = r'"
    and disc: "disciplined_join h e"
    and m1: "c \<in> members (fst (hub_step h e)) r"
    and m2: "c \<in> members (fst (hub_step h e)) r'"
  shows "r = r'"
proof -
  from m1 have a: "joins c r e \<or> (c \<in> members h r \<and> \<not> departs c r e)"
    by (simp add: members_step[OF inv])
  from m2 have b: "joins c r' e \<or> (c \<in> members h r' \<and> \<not> departs c r' e)"
    by (simp add: members_step[OF inv])
  show ?thesis
  proof (cases "joins c r e")
    case True
    note jr = this
    show ?thesis
    proof (cases "joins c r' e")
      case True
      with jr show ?thesis by (auto simp: joins_def split: client_msg.splits)
    next
      case False
      with b have "c \<in> members h r'" by simp
      from disciplined_joinD[OF disc jr this] show ?thesis by simp
    qed
  next
    case False
    with a have mr: "c \<in> members h r" by simp
    show ?thesis
    proof (cases "joins c r' e")
      case True
      from disciplined_joinD[OF disc True mr] show ?thesis .
    next
      case False
      with b have "c \<in> members h r'" by simp
      with mr one show ?thesis by blast
    qed
  qed
qed

lemma single_room_run:
  "registry_inv h \<Longrightarrow>
   \<forall>c r r'. c \<in> members h r \<longrightarrow> c \<in> members h r' \<longrightarrow> r = r' \<Longrightarrow>
   single_room_discipline h es \<Longrightarrow>
   c \<in> members (hub_run h es) r \<Longrightarrow> c \<in> members (hub_run h es) r' \<Longrightarrow> r = r'"
proof (induction es arbitrary: h)
  case Nil
  then show ?case by simp
next
  case (Cons e es)
  let ?h' = "fst (hub_step h e)"
  have inv': "registry_inv ?h'" using Cons.prems(1) by (rule registry_inv_step)
  from Cons.prems(3) have disc: "disciplined_join h e" and disc': "single_room_discipline ?h' es"
    by simp_all
  have one': "\<forall>c r r'. c \<in> members ?h' r \<longrightarrow> c \<in> members ?h' r' \<longrightarrow> r = r'"
    using single_room_step[OF Cons.prems(1) Cons.prems(2) disc] by blast
  from Cons.prems(4,5) have "c \<in> members (hub_run ?h' es) r" "c \<in> members (hub_run ?h' es) r'"
    by simp_all
  from Cons.IH[OF inv' one' disc' this] show ?case .
qed

text \<open>
  C7, single-room membership, as the code has it. The hub does not enforce it: a
  connection that joins a second room stays registered in the first. It holds for the
  histories in which no connection sends \<open>join-room\<close> for a room while it is registered
  in a different one: after such a history each connection id is in the participant set
  of at most one room.
\<close>

theorem single_room_membership:
  "single_room_discipline hub_init es \<Longrightarrow>
   c \<in> members (reachable es) r \<Longrightarrow> c \<in> members (reachable es) r' \<Longrightarrow> r = r'"
  unfolding reachable_def
  by (rule single_room_run[OF registry_inv_init, of es c r r'])
     (simp_all add: hub_init_def members_def listParticipants_def map_get_def)

theorem single_room_membership_witness:
  "single_room_discipline hub_init
     [\<lparr>origin = ''A'', at = 10, msg = JoinRoom ''r1'' ''u1'' ''Alice''\<rparr>,
      \<lparr>origin = ''A'', at = 11, msg = LeaveRoom ''r1''\<rparr>,
      \<lparr>origin = ''A'', at = 12, msg = JoinRoom ''r2'' ''u1'' ''Alice''\<rparr>]
   \<and> ''A'' \<in> members (reachable
     [\<lparr>origin = ''A'', at = 10, msg = JoinRoom ''r1'' ''u1'' ''Alice''\<rparr>,
      \<lparr>origin = ''A'', at = 11, msg = LeaveRoom ''r1''\<rparr>,
      \<lparr>origin = ''A'', at = 12, msg = JoinRoom ''r2'' ''u1'' ''Alice''\<rparr>]) ''r2''
   \<and> ''A'' \<notin> members (reachable
     [\<lparr>origin = ''A'', at = 10, msg = JoinRoom ''r1'' ''u1'' ''Alice''\<rparr>,
      \<lparr>origin = ''A'', at = 11, msg = LeaveRoom ''r1''\<rparr>,
      \<lparr>origin = ''A'', at = 12, msg = JoinRoom ''r2'' ''u1'' ''Alice''\<rparr>]) ''r1''"
proof -
  let ?es = "[\<lparr>origin = ''A'', at = 10, msg = JoinRoom ''r1'' ''u1'' ''Alice''\<rparr>,
      \<lparr>origin = ''A'', at = 11, msg = LeaveRoom ''r1''\<rparr>,
      \<lparr>origin = ''A'', at = 12, msg = JoinRoom ''r2'' ''u1'' ''Alice''\<rparr>]"
  have d: "single_room_discipline hub_init ?es"
    by (simp add: hub_eval disciplined_join_def)
  have m: "''A'' \<in> members (reachable ?es) ''r2''"
    by (simp add: hub_eval)
  have "''A'' \<notin> members (reachable ?es) ''r1''"
  proof
    assume "''A'' \<in> members (reachable ?es) ''r1''"
    from single_room_membership[OF d this m] show False by simp
  qed
  with d m show ?thesis by simp
qed

theorem single_room_membership_counterexample:
  "''A'' \<in> members (reachable
     [\<lparr>origin = ''A'', at = 10, msg = JoinRoom ''r1'' ''u1'' ''Alice''\<rparr>,
      \<lparr>origin = ''A'', at = 11, msg = JoinRoom ''r2'' ''u1'' ''Alice''\<rparr>]) ''r1''
   \<and> ''A'' \<in> members (reachable
     [\<lparr>origin = ''A'', at = 10, msg = JoinRoom ''r1'' ''u1'' ''Alice''\<rparr>,
      \<lparr>origin = ''A'', at = 11, msg = JoinRoom ''r2'' ''u1'' ''Alice''\<rparr>]) ''r2''
   \<and> ''r1'' \<noteq> ''r2''"
  by (simp add: hub_eval)

section \<open>Properties of the client\<close>

subsection \<open>The singleton module\<close>

text \<open>
  C9, the emit helpers are silent when unconnected. While the module's socket is null or
  not connected, \<open>emitCodeChange\<close>, \<open>emitCursorChange\<close> and \<open>emitLanguageChange\<close>
  return normally and leave the module, and so every list of emitted events, unchanged;
  so does \<open>leaveRoom\<close> while the socket is null. \<open>joinRoom\<close> never fails: it
  creates the socket when there is none and emits \<open>join-room\<close> on the module's socket
  whether or not it is connected.
\<close>

theorem emit_helpers_silent:
  "(\<not> isSocketConnected st \<longrightarrow>
      emitCodeChange r code language uid st = Inr st \<and>
      emitCursorChange r position uid uname st = Inr st \<and>
      emitLanguageChange r language uid st = Inr st)
   \<and> (socket st = None \<longrightarrow> leaveRoom r st = Inr st)
   \<and> joinRoom env_url r uid uname st =
        Inr (st\<lparr> socket := Some
          (case socket st of
             None \<Rightarrow> \<lparr> connected = False, sent = [JoinRoom r uid uname] \<rparr>
           | Some sk \<Rightarrow> sk\<lparr> sent := sent sk @ [JoinRoom r uid uname] \<rparr>) \<rparr>)"
  by (auto simp: isSocketConnected_def emitCodeChange_def emitCursorChange_def
      emitLanguageChange_def leaveRoom_def joinRoom_def getSocket_def socket_emit_def io_def
      Let_def split: option.splits)

theorem emit_helpers_silent_witness:
  "\<not> isSocketConnected module_init
   \<and> emitCodeChange ''r1'' ''x=1'' ''javascript'' ''u1'' module_init = Inr module_init
   \<and> emitCursorChange ''r1'' (3, 7) ''u1'' ''Alice'' module_init = Inr module_init
   \<and> emitLanguageChange ''r1'' ''python'' ''u1'' module_init = Inr module_init
   \<and> socket module_init = None
   \<and> leaveRoom ''r1'' module_init = Inr module_init
   \<and> joinRoom None ''r1'' ''u1'' ''Alice'' module_init =
       Inr \<lparr> socket = Some \<lparr> connected = False, sent = [JoinRoom ''r1'' ''u1'' ''Alice''] \<rparr> \<rparr>"
proof -
  have a: "\<not> isSocketConnected module_init"
    by (simp add: isSocketConnected_def socket_connected_def module_init_def)
  have b: "socket module_init = None"
    by (simp add: module_init_def)
  from emit_helpers_silent[where st = module_init and r = "''r1''" and code = "''x=1''"
      and language = "''javascript''" and uid = "''u1''" and position = "(3, 7)"
      and uname = "''Alice''" and env_url = None] a b
  have "emitCodeChange ''r1'' ''x=1'' ''javascript'' ''u1'' module_init = Inr module_init"
    "emitCursorChange ''r1'' (3, 7) ''u1'' ''Alice'' module_init = Inr module_init"
    "leaveRoom ''r1'' module_init = Inr module_init"
    "joinRoom None ''r1'' ''u1'' ''Alice'' module_init =
       Inr \<lparr> socket = Some \<lparr> connected = False, sent = [JoinRoom ''r1'' ''u1'' ''Alice''] \<rparr> \<rparr>"
    by (simp_all add: module_init_def)
  moreover from emit_helpers_silent[where st = module_init and r = "''r1''"
      and language = "''python''" and uid = "''u1''"] a
  have "emitLanguageChange ''r1'' ''python'' ''u1'' module_init = Inr module_init"
    by simp
  ultimately show ?thesis using a b by simp
qed

subsection \<open>The editor panel\<close>











lemma panel_run_append: "panel_run s (xs @ ys) = panel_run (panel_run s xs) ys"
  by (simp add: panel_run_def)


text \<open>The definitions that evaluate a run of the panel on concrete actions.\<close>

lemmas panel_eval = panel_mount_def panel_run_def burst_def local_edit_def handleCodeChange_def
  handleCodeUpdate_def apply_remote_def editor_setValue_def editor_setPosition_def
  receive_code_update_def elapse_def timer_callback_def socket_emit_def socket_connected_def
  socket_set_connected_def handleEditorDidMount_def
  truthy_def clearTimeout_def setTimeout_def outbox_def panel_ready_def timer_held_def Let_def









text \<open>
  While \<open>isRemoteChangeRef\<close> is clear, \<open>handleCodeChange\<close> always calls
  \<open>onCodeChange\<close> with the new value and never emits by itself. Without a connected
  socket, a room id and a user id, that call is its only effect; with them it also
  cancels the pending timeout and sets a new one, due in 300 ms, that will emit the
  \<open>code-change\<close>.
\<close>

lemma handleCodeChange_unflagged:
  "\<not> isRemoteChangeRef s \<Longrightarrow>
   code_calls (handleCodeChange v s) = code_calls s @ [v]
   \<and> outbox (handleCodeChange v s) = outbox s
   \<and> (\<not> (socket_connected (p_socket s) \<and> truthy (p_roomId s) \<and> truthy (p_userId s)) \<longrightarrow>
         handleCodeChange v s = s\<lparr> code_calls := code_calls s @ [v] \<rparr>)
   \<and> (socket_connected (p_socket s) \<and> truthy (p_roomId s) \<and> truthy (p_userId s) \<longrightarrow>
         (\<exists>r uid. p_roomId s = Some r \<and> p_userId s = Some uid \<and>
            timers (handleCodeChange v s) =
              filter (\<lambda>(i, due, m). Some i \<noteq> debounceTimerRef s) (timers s) @
              [(next_timer s, clock s + 300, CodeChange r v (p_selectedLanguage s) uid)] \<and>
            debounceTimerRef (handleCodeChange v s) = Some (next_timer s)))"
  by (auto simp: handleCodeChange_def outbox_def clearTimeout_def setTimeout_def truthy_def Let_def
      split: option.splits)

text \<open>
  C10, local edits are applied locally whatever the connectivity. The code misses a
  case. A \<open>code-update\<close> from another user that arrives before the editor has mounted
  sets \<open>isRemoteChangeRef\<close> and, with no editor to call \<open>setValue\<close> on, nothing clears
  it. The first edit the user then makes finds the flag set: \<open>onCodeChange\<close> is not
  called with the new value and nothing is scheduled, although the change is not a
  remote echo and the socket is connected.
\<close>

theorem local_edit_swallowed:
  "isRemoteChangeRef (panel_run
      (panel_mount (Some \<lparr>connected = True, sent = []\<rparr>) (Some ''r1'') (Some ''u1'') ''javascript'')
      [CodeUpdateReceived ''x'' ''javascript'' ''u2'',
       EditorMounted \<lparr>content = ''x'', cursor = Some (10, 10)\<rparr>])
   \<and> code_calls (panel_run
      (panel_mount (Some \<lparr>connected = True, sent = []\<rparr>) (Some ''r1'') (Some ''u1'') ''javascript'')
      [CodeUpdateReceived ''x'' ''javascript'' ''u2'',
       EditorMounted \<lparr>content = ''x'', cursor = Some (10, 10)\<rparr>]) = [''x'']
   \<and> code_calls (panel_run
      (panel_mount (Some \<lparr>connected = True, sent = []\<rparr>) (Some ''r1'') (Some ''u1'') ''javascript'')
      [CodeUpdateReceived ''x'' ''javascript'' ''u2'',
       EditorMounted \<lparr>content = ''x'', cursor = Some (10, 10)\<rparr>,
       LocalEdit ''xa'']) = [''x'']
   \<and> timers (panel_run
      (panel_mount (Some \<lparr>connected = True, sent = []\<rparr>) (Some ''r1'') (Some ''u1'') ''javascript'')
      [CodeUpdateReceived ''x'' ''javascript'' ''u2'',
       EditorMounted \<lparr>content = ''x'', cursor = Some (10, 10)\<rparr>,
       LocalEdit ''xa'']) = []
   \<and> code_calls (panel_run
      (panel_mount (Some \<lparr>connected = True, sent = []\<rparr>) (Some ''r1'') (Some ''u1'') ''javascript'')
      [CodeUpdateReceived ''x'' ''javascript'' ''u2'',
       EditorMounted \<lparr>content = ''x'', cursor = Some (10, 10)\<rparr>,
       LocalEdit ''xa'', LocalEdit ''xab'']) = [''x'', ''xab'']"
  by (simp add: panel_eval)

lemma p_socket_fold_callbacks:
  "p_socket s = p_socket s' \<Longrightarrow>
   p_socket (fold (\<lambda>(i, t, m). timer_callback m) due s) =
   p_socket (fold (\<lambda>(i, t, m). timer_callback m) due s')"
proof (induction due arbitrary: s s')
  case Nil
  then show ?case by simp
next
  case (Cons x due)
  obtain i t m where x: "x = (i, t, m)" by (cases x)
  have "p_socket (timer_callback m s) = p_socket (timer_callback m s')"
    using Cons.prems by (simp add: timer_callback_def split: sum.splits)
  from Cons.IH[OF this] show ?case by (simp add: x)
qed

lemma outbox_elapse_cong:
  assumes "timers s' = timers s" "clock s' = clock s" "p_socket s' = p_socket s"
  shows "outbox (elapse d s') = outbox (elapse d s)"
proof -
  have "p_socket (elapse d s') = p_socket (elapse d s)"
    unfolding elapse_def Let_def assms(1,2)
    by (rule p_socket_fold_callbacks) (simp add: assms(3))
  then show ?thesis by (simp add: outbox_def)
qed

lemma handleCodeChange_flagged:
  "isRemoteChangeRef s \<Longrightarrow> handleCodeChange v s = s\<lparr> isRemoteChangeRef := False \<rparr>"
  by (simp add: handleCodeChange_def)

lemma handleCodeUpdate_foreign:
  assumes "p_userId s \<noteq> Some uid"
  shows "handleCodeUpdate code language uid s =
     (case editorRef s of
        None \<Rightarrow> apply_remote code s
      | Some ed \<Rightarrow>
          s\<lparr> code_calls := code_calls s @ [code], isRemoteChangeRef := False,
             editorRef := Some (ed\<lparr> content := code,
                cursor := (case cursor ed of None \<Rightarrow> Some (1, 1) | Some p \<Rightarrow> Some p) \<rparr>) \<rparr>)"
  using assms
  by (auto simp: handleCodeUpdate_def Let_def editor_setValue_def editor_setPosition_def
      handleCodeChange_flagged apply_remote_def split: option.splits)

text \<open>
  C6, echo suppression. A \<open>code-update\<close> that carries the local user id leaves the panel
  as it is. Any other one sets the flag and passes the remote code to \<open>onCodeChange\<close>;
  the change notification for that code then finds the flag set and only clears it. With
  the editor mounted the update ends with the remote code in the editor, the cursor where
  it was and the flag clear; in both cases no timeout is set or cancelled and nothing is
  emitted, now or when time passes.
\<close>

theorem echo_suppression:
  "(p_userId s = Some uid \<longrightarrow> handleCodeUpdate code language uid s = s)
   \<and> (p_userId s \<noteq> Some uid \<longrightarrow>
        isRemoteChangeRef (apply_remote code s)
        \<and> code_calls (apply_remote code s) = code_calls s @ [code]
        \<and> handleCodeChange code (apply_remote code s) =
            (apply_remote code s)\<lparr> isRemoteChangeRef := False \<rparr>
        \<and> handleCodeUpdate code language uid s =
            (case editorRef s of
               None \<Rightarrow> apply_remote code s
             | Some ed \<Rightarrow>
                 s\<lparr> code_calls := code_calls s @ [code], isRemoteChangeRef := False,
                    editorRef := Some (ed\<lparr> content := code,
                       cursor := (case cursor ed of None \<Rightarrow> Some (1, 1) | Some p \<Rightarrow> Some p) \<rparr>) \<rparr>)
        \<and> timers (handleCodeUpdate code language uid s) = timers s
        \<and> debounceTimerRef (handleCodeUpdate code language uid s) = debounceTimerRef s
        \<and> outbox (handleCodeUpdate code language uid s) = outbox s
        \<and> outbox (elapse d (handleCodeUpdate code language uid s)) = outbox (elapse d s))"
proof (intro conjI impI)
  assume "p_userId s = Some uid"
  then show "handleCodeUpdate code language uid s = s"
    by (simp add: handleCodeUpdate_def)
next
  assume f: "p_userId s \<noteq> Some uid"
  note u = handleCodeUpdate_foreign[OF f, of code language]
  show "isRemoteChangeRef (apply_remote code s)"
    "code_calls (apply_remote code s) = code_calls s @ [code]"
    by (simp_all add: apply_remote_def)
  show "handleCodeChange code (apply_remote code s) =
          (apply_remote code s)\<lparr> isRemoteChangeRef := False \<rparr>"
    by (simp add: handleCodeChange_flagged apply_remote_def)
  show "handleCodeUpdate code language uid s =
            (case editorRef s of
               None \<Rightarrow> apply_remote code s
             | Some ed \<Rightarrow>
                 s\<lparr> code_calls := code_calls s @ [code], isRemoteChangeRef := False,
                    editorRef := Some (ed\<lparr> content := code,
                       cursor := (case cursor ed of None \<Rightarrow> Some (1, 1) | Some p \<Rightarrow> Some p) \<rparr>) \<rparr>)"
    by (rule u)
  have same: "timers (handleCodeUpdate code language uid s) = timers s"
    "clock (handleCodeUpdate code language uid s) = clock s"
    "p_socket (handleCodeUpdate code language uid s) = p_socket s"
    "debounceTimerRef (handleCodeUpdate code language uid s) = debounceTimerRef s"
    unfolding u by (simp_all add: apply_remote_def split: option.splits)
  show "timers (handleCodeUpdate code language uid s) = timers s"
    "debounceTimerRef (handleCodeUpdate code language uid s) = debounceTimerRef s"
    by (rule same)+
  show "outbox (handleCodeUpdate code language uid s) = outbox s"
    by (simp add: outbox_def same)
  show "outbox (elapse d (handleCodeUpdate code language uid s)) = outbox (elapse d s)"
    by (rule outbox_elapse_cong[OF same(1,2,3)])
qed

theorem echo_suppression_witness:
  "p_userId (handleEditorDidMount \<lparr>content = ''old'', cursor = Some (2, 5)\<rparr>
      (panel_mount (Some \<lparr>connected = True, sent = []\<rparr>) (Some ''r1'') (Some ''u1'') ''javascript''))
     \<noteq> Some ''u2''
   \<and> handleCodeUpdate ''x=1'' ''javascript'' ''u2''
      (handleEditorDidMount \<lparr>content = ''old'', cursor = Some (2, 5)\<rparr>
        (panel_mount (Some \<lparr>connected = True, sent = []\<rparr>) (Some ''r1'') (Some ''u1'') ''javascript''))
     = (panel_mount (Some \<lparr>connected = True, sent = []\<rparr>) (Some ''r1'') (Some ''u1'') ''javascript'')
         \<lparr> editorRef := Some \<lparr>content = ''x=1'', cursor = Some (2, 5)\<rparr>, code_calls := [''x=1''] \<rparr>
   \<and> outbox (elapse 300 (handleCodeUpdate ''x=1'' ''javascript'' ''u2''
      (handleEditorDidMount \<lparr>content = ''old'', cursor = Some (2, 5)\<rparr>
        (panel_mount (Some \<lparr>connected = True, sent = []\<rparr>) (Some ''r1'') (Some ''u1'') ''javascript''))))
     = []
   \<and> handleCodeUpdate ''x=1'' ''javascript'' ''u1''
      (handleEditorDidMount \<lparr>content = ''old'', cursor = Some (2, 5)\<rparr>
        (panel_mount (Some \<lparr>connected = True, sent = []\<rparr>) (Some ''r1'') (Some ''u1'') ''javascript''))
     = handleEditorDidMount \<lparr>content = ''old'', cursor = Some (2, 5)\<rparr>
        (panel_mount (Some \<lparr>connected = True, sent = []\<rparr>) (Some ''r1'') (Some ''u1'') ''javascript'')"
proof -
  let ?s = "handleEditorDidMount \<lparr>content = ''old'', cursor = Some (2, 5)\<rparr>
      (panel_mount (Some \<lparr>connected = True, sent = []\<rparr>) (Some ''r1'') (Some ''u1'') ''javascript'')"
  have f: "p_userId ?s \<noteq> Some ''u2''" and l: "p_userId ?s = Some ''u1''"
    by (simp_all add: handleEditorDidMount_def panel_mount_def)
  have e: "outbox (elapse 300 ?s) = []"
    by (simp add: handleEditorDidMount_def panel_eval)
  have m: "handleCodeUpdate ''x=1'' ''javascript'' ''u2'' ?s =
            (case editorRef ?s of
               None \<Rightarrow> apply_remote ''x=1'' ?s
             | Some ed \<Rightarrow>
                 ?s\<lparr> code_calls := code_calls ?s @ [''x=1''], isRemoteChangeRef := False,
                    editorRef := Some (ed\<lparr> content := ''x=1'',
                       cursor := (case cursor ed of None \<Rightarrow> Some (1, 1) | Some p \<Rightarrow> Some p) \<rparr>) \<rparr>)"
    and o: "outbox (elapse 300 (handleCodeUpdate ''x=1'' ''javascript'' ''u2'' ?s)) = outbox (elapse 300 ?s)"
    using echo_suppression[where s = ?s and uid = "''u2''" and code = "''x=1''"
      and language = "''javascript''" and d = 300] f
    by blast+
  have "handleCodeUpdate ''x=1'' ''javascript'' ''u2'' ?s =
      (panel_mount (Some \<lparr>connected = True, sent = []\<rparr>) (Some ''r1'') (Some ''u1'') ''javascript'')
         \<lparr> editorRef := Some \<lparr>content = ''x=1'', cursor = Some (2, 5)\<rparr>, code_calls := [''x=1''] \<rparr>"
    unfolding m by (simp add: handleEditorDidMount_def panel_mount_def)
  moreover note o
  moreover from echo_suppression[where s = ?s and uid = "''u1''" and code = "''x=1''"
      and language = "''javascript''"] l
  have "handleCodeUpdate ''x=1'' ''javascript'' ''u1'' ?s = ?s"
    by blast
  ultimately show ?thesis using f e by simp
qed

subsection \<open>The pending timeout of a mounted panel\<close>

text \<open>Whatever happens to a panel after it is mounted, a pending timeout is the one
  \<open>debounceTimerRef\<close> holds: a panel is ready as soon as it can emit and is not applying
  a remote update.\<close>

lemma timer_held_handleCodeChange: "timer_held s \<Longrightarrow> timer_held (handleCodeChange v s)"
  by (auto simp: timer_held_def handleCodeChange_def clearTimeout_def setTimeout_def Let_def
      list_all_iff split: option.splits)

lemma timers_fold_callbacks:
  "timers (fold (\<lambda>(i, t, m). timer_callback m) due s) = timers s \<and>
   debounceTimerRef (fold (\<lambda>(i, t, m). timer_callback m) due s) = debounceTimerRef s"
  by (induction due arbitrary: s) (auto simp: timer_callback_def split: sum.splits)

lemma timer_held_step: "timer_held s \<Longrightarrow> timer_held (panel_step a s)"
proof (cases a)
  case (EditorMounted ed)
  assume "timer_held s"
  then show ?thesis
    by (simp add: EditorMounted handleEditorDidMount_def timer_held_def)
next
  case SocketConnected
  assume "timer_held s"
  then show ?thesis
    by (simp add: SocketConnected socket_set_connected_def timer_held_def split: option.splits)
next
  case SocketDisconnected
  assume "timer_held s"
  then show ?thesis
    by (simp add: SocketDisconnected socket_set_connected_def timer_held_def split: option.splits)
next
  case (LocalEdit v)
  assume h: "timer_held s"
  have "timer_held (case editorRef s of None \<Rightarrow> s
      | Some ed \<Rightarrow> s\<lparr> editorRef := Some (ed\<lparr> content := v \<rparr>) \<rparr>)"
    using h by (simp add: timer_held_def split: option.splits)
  then show ?thesis
    unfolding LocalEdit panel_step.simps local_edit_def by (rule timer_held_handleCodeChange)
next
  case (CodeUpdateReceived code language uid)
  assume h: "timer_held s"
  have "timers (handleCodeUpdate code language uid s) = timers s \<and>
        debounceTimerRef (handleCodeUpdate code language uid s) = debounceTimerRef s"
  proof (cases "p_userId s = Some uid")
    case True
    then show ?thesis by (simp add: handleCodeUpdate_def)
  next
    case False
    show ?thesis
      unfolding handleCodeUpdate_foreign[OF False]
      by (simp add: apply_remote_def split: option.splits)
  qed
  with h show ?thesis
    by (simp add: CodeUpdateReceived receive_code_update_def timer_held_def)
next
  case (Elapse d)
  assume h: "timer_held s"
  then show ?thesis
    by (simp add: Elapse elapse_def Let_def timers_fold_callbacks timer_held_def list_all_iff)
qed

lemma timer_held_run: "timer_held s \<Longrightarrow> timer_held (panel_run s acts)"
  unfolding panel_run_def
  by (induction acts arbitrary: s) (simp_all add: timer_held_step)

lemma timer_held_mount: "timer_held (panel_run (panel_mount so r uid lang) acts)"
  by (rule timer_held_run) (simp add: timer_held_def panel_mount_def)

lemma ready_of_mount:
  "panel_ready (panel_run (panel_mount so r uid lang) acts) \<longleftrightarrow>
   socket_connected (p_socket (panel_run (panel_mount so r uid lang) acts)) \<and>
   truthy (p_roomId (panel_run (panel_mount so r uid lang) acts)) \<and>
   truthy (p_userId (panel_run (panel_mount so r uid lang) acts)) \<and>
   \<not> isRemoteChangeRef (panel_run (panel_mount so r uid lang) acts)"
  by (simp add: panel_ready_def timer_held_mount)

end
